theory Spec2Isabelle
  imports Complex_Main "HOL-Library.Sublist" "HOL-Library.Multiset" "HOL-Library.AList"
begin

section \<open>Coffee diary: the entries filter and the dashboard aggregation\<close>

text \<open>
  The development embeds the client-side computations of three pages:
  \<^item> \<^verbatim>\<open>app/entries/page.tsx\<close>: the search, filter and sort effect of \<^verbatim>\<open>EntriesPage\<close>;
  \<^item> the dashboard page (\<^verbatim>\<open>DashboardPage\<close>, function \<^verbatim>\<open>getStats\<close>) and its component
    \<^verbatim>\<open>CoffeeTrends\<close> (\<^verbatim>\<open>roastLevelData\<close>, \<^verbatim>\<open>ratingData\<close>, \<^verbatim>\<open>monthlyData\<close>,
    \<^verbatim>\<open>tasteProfileData\<close> and the three-entry threshold);
  \<^item> \<^verbatim>\<open>app/auth/page.tsx\<close>: the error branch of \<^verbatim>\<open>handleAuth\<close>.
\<close>

subsection \<open>Strings\<close>

text \<open>
  A JavaScript string is a sequence of UTF-16 code units. Literals of the source that are
  not ASCII are written by their code units; \<open>ascii\<close> embeds an ASCII literal.
\<close>

type_synonym jsstring = "nat list"

definition ascii :: "string \<Rightarrow> jsstring" where
  "ascii s = map of_char s"

text \<open>\<^verbatim>\<open>s.includes(t)\<close>: \<open>t\<close> occurs in \<open>s\<close> at some position.\<close>

fun str_includes :: "jsstring \<Rightarrow> jsstring \<Rightarrow> bool" where
  "str_includes [] t = (t = [])"
| "str_includes (x # xs) t = (prefix t (x # xs) \<or> str_includes xs t)"

text \<open>
  \<^verbatim>\<open>s.trim()\<close> removes the code units of WhiteSpace and LineTerminator (ECMA-262) from
  both ends.
\<close>

definition isWhiteSpace :: "nat \<Rightarrow> bool" where
  "isWhiteSpace c \<longleftrightarrow>
     c \<in> {0x09, 0x0A, 0x0B, 0x0C, 0x0D, 0x20, 0xA0, 0x1680, 0x2028, 0x2029, 0x202F,
          0x205F, 0x3000, 0xFEFF} \<or> (0x2000 \<le> c \<and> c \<le> 0x200A)"

definition trim :: "jsstring \<Rightarrow> jsstring" where
  "trim s = rev (dropWhile isWhiteSpace (rev (dropWhile isWhiteSpace s)))"

text \<open>Decimal digits of a natural number, as \<^verbatim>\<open>String(n)\<close> prints them.\<close>

fun digits :: "nat \<Rightarrow> jsstring" where
  "digits n = (if n < 10 then [48 + n] else digits (n div 10) @ [48 + n mod 10])"

declare digits.simps [simp del]

subsection \<open>Values and plain objects\<close>

text \<open>
  A JavaScript number, idealised: a finite double is the rational it denotes, and the
  rounding of a quotient to the nearest double is not modelled. Counts and sums of
  ratings are integers and exact, and so is \<open>0 / 1\<close>; a quotient such as
  \<open>23 / 20\<close> is the rational 1.15 here and the double just below it in JavaScript, so
  that \<^verbatim>\<open>toFixed(1)\<close> prints 1.2 here and 1.1 there. Nothing below is stated about
  the digits of a quotient other than \<open>0 / 1\<close>.
\<close>

datatype number = Finite rat | NotANumber | PosInfinity | NegInfinity

text \<open>
  The values that the counting objects and arrays of the source can hold.
  \<open>Inherited\<close> is a member of \<^verbatim>\<open>Object.prototype\<close> (a function, or the prototype
  itself for \<^verbatim>\<open>__proto__\<close>) and \<open>Garbled\<close> the non-numeric string that
  \<^verbatim>\<open>+ 1\<close> makes of such a member.
\<close>

datatype jsval = Undefined | Number number | Inherited | Garbled

abbreviation Num :: "rat \<Rightarrow> jsval" where
  "Num q \<equiv> Number (Finite q)"

abbreviation NaN :: jsval where
  "NaN \<equiv> Number NotANumber"

text \<open>Truthiness, as \<^verbatim>\<open>if (v)\<close>, \<^verbatim>\<open>!v\<close> and \<^verbatim>\<open>v || w\<close> test it.\<close>

fun truthy :: "jsval \<Rightarrow> bool" where
  "truthy Undefined = False"
| "truthy (Number (Finite q)) = (q \<noteq> 0)"
| "truthy (Number NotANumber) = False"
| "truthy v = True"

definition or_else :: "jsval \<Rightarrow> jsval \<Rightarrow> jsval" where
  "or_else v w = (if truthy v then v else w)"

text \<open>\<^verbatim>\<open>v + 1\<close>: numeric addition, or string concatenation for a function or a string.\<close>

fun plus_one :: "jsval \<Rightarrow> jsval" where
  "plus_one (Number (Finite q)) = Num (q + 1)"
| "plus_one (Number n) = Number n"
| "plus_one Undefined = NaN"
| "plus_one Inherited = Garbled"
| "plus_one Garbled = Garbled"

text \<open>
  \<^verbatim>\<open>v++\<close> converts to a number first: what is not a number becomes \<^verbatim>\<open>NaN\<close>.
\<close>

fun increment :: "jsval \<Rightarrow> jsval" where
  "increment (Number (Finite q)) = Num (q + 1)"
| "increment (Number n) = Number n"
| "increment v = NaN"

text \<open>\<^verbatim>\<open>v - w\<close> on numbers; an operand that is not a number gives \<^verbatim>\<open>NaN\<close>.\<close>

fun number_minus :: "number \<Rightarrow> number \<Rightarrow> number" where
  "number_minus (Finite a) (Finite b) = Finite (a - b)"
| "number_minus (Finite a) PosInfinity = NegInfinity"
| "number_minus (Finite a) NegInfinity = PosInfinity"
| "number_minus PosInfinity (Finite b) = PosInfinity"
| "number_minus NegInfinity (Finite b) = NegInfinity"
| "number_minus PosInfinity NegInfinity = PosInfinity"
| "number_minus NegInfinity PosInfinity = NegInfinity"
| "number_minus a b = NotANumber"

fun js_minus :: "jsval \<Rightarrow> jsval \<Rightarrow> number" where
  "js_minus (Number a) (Number b) = number_minus a b"
| "js_minus v w = NotANumber"

text \<open>\<^verbatim>\<open>a / b\<close> on integers held as numbers, with the three results of a zero divisor.\<close>

definition js_divide :: "int \<Rightarrow> int \<Rightarrow> number" where
  "js_divide a b =
     (if b = 0 then (if a = 0 then NotANumber else if 0 < a then PosInfinity else NegInfinity)
      else Finite (of_int a / of_int b))"

text \<open>
  \<^verbatim>\<open>x.toFixed(1)\<close>: the sign, then the integer \<open>n\<close> nearest to ten times the
  magnitude (the larger one on a tie), printed with one digit after the point. Magnitudes
  from \<open>10^21\<close> on, which JavaScript prints in exponent notation, are beyond what an
  average of \<^verbatim>\<open>INTEGER\<close> ratings reaches and are printed positionally here.
\<close>

definition fixed1 :: "rat \<Rightarrow> jsstring" where
  "fixed1 x = (let n = nat \<lfloor>x * 10 + 1 / 2\<rfloor> in digits (n div 10) @ [0x2E] @ digits (n mod 10))"

fun toFixed1 :: "number \<Rightarrow> jsstring" where
  "toFixed1 (Finite q) = (if q < 0 then [0x2D] @ fixed1 (- q) else fixed1 q)"
| "toFixed1 NotANumber = ascii ''NaN''"
| "toFixed1 PosInfinity = ascii ''Infinity''"
| "toFixed1 NegInfinity = ascii ''-Infinity''"

text \<open>
  \<^verbatim>\<open>xs.sort(cmp)\<close>. The sort is stable (ECMAScript 2019), and \<open>x\<close> moves behind
  \<open>y\<close> only when \<^verbatim>\<open>cmp(x, y)\<close> is positive; a \<^verbatim>\<open>NaN\<close> counts as zero. For a
  consistent comparator the result of a stable sort is unique: it is the list built by
  inserting the elements from the right. A comparator that returns \<^verbatim>\<open>NaN\<close> for some
  pairs (as \<^verbatim>\<open>b[1] - a[1]\<close> does over a \<open>Garbled\<close> count) is not consistent; the
  order is then the implementation's and may differ from the one computed here. Nothing
  below is stated about the order in that case: the properties of the most frequent
  value use only that sorting permutes the list.
\<close>

fun positive :: "number \<Rightarrow> bool" where
  "positive (Finite q) = (0 < q)"
| "positive PosInfinity = True"
| "positive n = False"

fun insert_cmp :: "('a \<Rightarrow> 'a \<Rightarrow> number) \<Rightarrow> 'a \<Rightarrow> 'a list \<Rightarrow> 'a list" where
  "insert_cmp cmp x [] = [x]"
| "insert_cmp cmp x (y # ys) =
     (if positive (cmp x y) then y # insert_cmp cmp x ys else x # y # ys)"

definition sort_cmp :: "('a \<Rightarrow> 'a \<Rightarrow> number) \<Rightarrow> 'a list \<Rightarrow> 'a list" where
  "sort_cmp cmp xs = foldr (insert_cmp cmp) xs []"

text \<open>\<^verbatim>\<open>xs.shift()\<close>, for its result: the first element, or \<^verbatim>\<open>undefined\<close>.\<close>

fun shift :: "'a list \<Rightarrow> 'a option" where
  "shift [] = None"
| "shift (x # xs) = Some x"

text \<open>
  A plain object (\<^verbatim>\<open>{}\<close> or an object literal) is the list of its own properties in
  creation order. Its prototype is \<^verbatim>\<open>Object.prototype\<close>, whose members a property
  read finds when the object has no own property of that name.
\<close>

type_synonym obj = "(jsstring \<times> jsval) list"

definition Object_prototype_keys :: "jsstring list" where
  "Object_prototype_keys = map ascii
     [''constructor'', ''__defineGetter__'', ''__defineSetter__'', ''hasOwnProperty'',
      ''__lookupGetter__'', ''__lookupSetter__'', ''isPrototypeOf'',
      ''propertyIsEnumerable'', ''toString'', ''valueOf'', ''__proto__'',
      ''toLocaleString'']"

text \<open>\<^verbatim>\<open>ob[k]\<close>.\<close>

definition getProp :: "obj \<Rightarrow> jsstring \<Rightarrow> jsval" where
  "getProp ob k =
     (case map_of ob k of
        Some v \<Rightarrow> v
      | None \<Rightarrow> if k \<in> set Object_prototype_keys then Inherited else Undefined)"

text \<open>
  \<^verbatim>\<open>ob[k] = v\<close> for a primitive \<open>v\<close>: an own property is overwritten in place, a new
  one is appended; \<^verbatim>\<open>__proto__\<close> is an accessor of the prototype whose setter ignores
  primitives.
\<close>

definition setProp :: "obj \<Rightarrow> jsstring \<Rightarrow> jsval \<Rightarrow> obj" where
  "setProp ob k v =
     (if map_of ob k = None \<and> k = ascii ''__proto__'' then ob else AList.update k v ob)"

text \<open>
  Own keys are enumerated array indices first, ascending, then the other names in
  creation order. An array index is a canonical decimal numeral below \<open>2^32 - 1\<close>.
\<close>

definition array_index :: "jsstring \<Rightarrow> nat option" where
  "array_index k =
     (if k = [] \<or> list_ex (\<lambda>c. c < 48 \<or> 57 < c) k \<or> (1 < length k \<and> hd k = 48) then None
      else let n = foldl (\<lambda>a c. 10 * a + (c - 48)) 0 k
           in if n < 4294967295 then Some n else None)"

definition index_rank :: "jsstring \<Rightarrow> nat" where
  "index_rank k = (case array_index k of Some n \<Rightarrow> n | None \<Rightarrow> 0)"

definition Object_keys :: "obj \<Rightarrow> jsstring list" where
  "Object_keys ob =
     sort_key index_rank (filter (\<lambda>k. array_index k \<noteq> None) (map fst ob))
     @ filter (\<lambda>k. array_index k = None) (map fst ob)"

definition Object_values :: "obj \<Rightarrow> jsval list" where
  "Object_values ob = map (getProp ob) (Object_keys ob)"

definition Object_entries :: "obj \<Rightarrow> (jsstring \<times> jsval) list" where
  "Object_entries ob = map (\<lambda>k. (k, getProp ob k)) (Object_keys ob)"

subsection \<open>Entries\<close>

text \<open>
  \<^verbatim>\<open>new Date(entry.created_at)\<close> is taken as parsed: a date is what its getters return
  (milliseconds since the epoch, and the year and zero-based month in local time).
\<close>

record Date =
  getTime :: int
  getFullYear :: int
  getMonth :: int

text \<open>
  \<^verbatim>\<open>CoffeeEntry\<close>, the union of the fields that the three pages select. The text columns
  are nullable (\<open>None\<close> is \<^verbatim>\<open>null\<close>); the numeric columns are \<^verbatim>\<open>INTEGER\<close>.
\<close>

record CoffeeEntry =
  entry_id :: jsstring
  bean_name :: "jsstring option"
  bean_origin :: "jsstring option"
  roast_level :: "jsstring option"
  brew_method :: "jsstring option"
  rating :: int
  sourness :: int
  sweetness :: int
  bitterness :: int
  richness :: int
  created_at :: Date

text \<open>A string field in a condition: \<^verbatim>\<open>null\<close> and the empty string are falsy.\<close>

fun present :: "jsstring option \<Rightarrow> bool" where
  "present None = False"
| "present (Some s) = (s \<noteq> [])"

subsection \<open>CoffeeTrends: the roast-level histogram\<close>

definition ROAST_LIGHT :: jsstring where "ROAST_LIGHT = [0x6D45, 0x714E, 0x308A]"
definition ROAST_MEDIUM_LIGHT :: jsstring where "ROAST_MEDIUM_LIGHT = [0x4E2D, 0x6D45, 0x714E, 0x308A]"
definition ROAST_MEDIUM :: jsstring where "ROAST_MEDIUM = [0x4E2D, 0x714E, 0x308A]"
definition ROAST_MEDIUM_DARK :: jsstring where "ROAST_MEDIUM_DARK = [0x4E2D, 0x6DF1, 0x714E, 0x308A]"
definition ROAST_DARK :: jsstring where "ROAST_DARK = [0x6DF1, 0x714E, 0x308A]"
definition ROAST_OTHER :: jsstring where "ROAST_OTHER = [0x305D, 0x306E, 0x4ED6, 0x2F, 0x4E0D, 0x660E]"

text \<open>The object literal \<^verbatim>\<open>levels\<close> of \<^verbatim>\<open>roastLevelData\<close>.\<close>

definition levels_init :: obj where
  "levels_init =
     [(ROAST_LIGHT, Num 0), (ROAST_MEDIUM_LIGHT, Num 0), (ROAST_MEDIUM, Num 0),
      (ROAST_MEDIUM_DARK, Num 0), (ROAST_DARK, Num 0), (ROAST_OTHER, Num 0)]"

text \<open>One iteration of \<^verbatim>\<open>for (const entry of entries)\<close> in \<^verbatim>\<open>roastLevelData\<close>.\<close>

definition roast_step :: "CoffeeEntry \<Rightarrow> obj \<Rightarrow> obj" where
  "roast_step entry levels =
     (case roast_level entry of
        Some r \<Rightarrow>
          if r \<noteq> [] \<and> getProp levels r \<noteq> Undefined
          then setProp levels r (increment (getProp levels r))
          else setProp levels ROAST_OTHER (increment (getProp levels ROAST_OTHER))
      | None \<Rightarrow> setProp levels ROAST_OTHER (increment (getProp levels ROAST_OTHER)))"

record chart_data =
  labels :: "jsstring list"
  data :: "jsval list"

definition roastLevelData :: "CoffeeEntry list \<Rightarrow> chart_data" where
  "roastLevelData entries =
     (let levels = fold roast_step entries levels_init
      in \<lparr>labels = Object_keys levels, data = Object_values levels\<rparr>)"

subsection \<open>CoffeeTrends: the rating histogram\<close>

text \<open>
  \<^verbatim>\<open>a[i]++\<close> on an array, for an integer \<open>i\<close>. Outside the array JavaScript does
  not fail: from the length on, the array grows (the slots between are holes, read as
  \<^verbatim>\<open>undefined\<close>) and the new element is \<^verbatim>\<open>NaN\<close>; a negative \<open>i\<close> names a
  property that is not an element.
\<close>

definition array_increment :: "jsval list \<Rightarrow> int \<Rightarrow> jsval list" where
  "array_increment a i =
     (if 0 \<le> i \<and> nat i < length a then a[nat i := increment (a ! nat i)]
      else if 0 \<le> i then a @ replicate (nat i - length a) Undefined @ [NaN]
      else a)"

definition count_rating :: "CoffeeEntry \<Rightarrow> jsval list \<Rightarrow> jsval list" where
  "count_rating entry ratings =
     (if 1 \<le> rating entry \<and> rating entry \<le> 5
      then array_increment ratings (rating entry - 1) else ratings)"

definition STAR :: nat where "STAR = 0x2605"

definition ratingData :: "CoffeeEntry list \<Rightarrow> chart_data" where
  "ratingData entries =
     \<lparr>labels = [[STAR, 0x31], [STAR, 0x32], [STAR, 0x33], [STAR, 0x34], [STAR, 0x35]],
      data = fold count_rating entries [Num 0, Num 0, Num 0, Num 0, Num 0]\<rparr>"

subsection \<open>CoffeeTrends: the monthly histogram\<close>

text \<open>
  \<^verbatim>\<open>d.toLocaleDateString("ja-JP", { month: "short" })\<close> for a date in the zero-based
  month \<open>m\<close>: the number of the month and the sign for month, U+6708.
\<close>

definition month_label :: "int \<Rightarrow> jsstring" where
  "month_label m = digits (nat (m + 1)) @ [0x6708]"

text \<open>
  The label of \<^verbatim>\<open>new Date(now.getFullYear(), now.getMonth() - i, 1)\<close>: the constructor
  carries a month outside 0..11 into the year, so the month is taken modulo 12.
\<close>

definition window_label :: "Date \<Rightarrow> int \<Rightarrow> jsstring" where
  "window_label now i = month_label ((getMonth now - i) mod 12)"

definition months_init :: "Date \<Rightarrow> obj" where
  "months_init now =
     fold (\<lambda>i months. setProp months (window_label now i) (Num 0)) [5, 4, 3, 2, 1, 0] []"

definition count_month :: "CoffeeEntry \<Rightarrow> obj \<Rightarrow> obj" where
  "count_month entry months =
     (let monthName = month_label (getMonth (created_at entry))
      in if getProp months monthName \<noteq> Undefined
         then setProp months monthName (increment (getProp months monthName))
         else months)"

definition monthlyData :: "Date \<Rightarrow> CoffeeEntry list \<Rightarrow> chart_data" where
  "monthlyData now entries =
     (let months = fold count_month entries (months_init now)
      in \<lparr>labels = Object_keys months, data = Object_values months\<rparr>)"

subsection \<open>CoffeeTrends: the taste profile\<close>

text \<open>\<^verbatim>\<open>x || 0\<close> and \<^verbatim>\<open>n || 1\<close> on an integer.\<close>

definition or_int :: "int \<Rightarrow> int \<Rightarrow> int" where
  "or_int x d = (if x \<noteq> 0 then x else d)"

definition tasteProfileData :: "CoffeeEntry list \<Rightarrow> chart_data" where
  "tasteProfileData entries =
     (let sourness = fold (\<lambda>entry s. s + or_int (sourness entry) 0) entries 0;
          sweetness = fold (\<lambda>entry s. s + or_int (sweetness entry) 0) entries 0;
          bitterness = fold (\<lambda>entry s. s + or_int (bitterness entry) 0) entries 0;
          richness = fold (\<lambda>entry s. s + or_int (richness entry) 0) entries 0;
          count = or_int (int (length entries)) 1
      in \<lparr>labels = [[0x9178, 0x5473], [0x7518, 0x5473], [0x82E6, 0x5473], [0x30B3, 0x30AF]],
          data = [Number (js_divide sourness count), Number (js_divide sweetness count),
                  Number (js_divide bitterness count), Number (js_divide richness count)]\<rparr>)"

subsection \<open>CoffeeTrends: the brew methods and the threshold\<close>

definition count_method :: "CoffeeEntry \<Rightarrow> obj \<Rightarrow> obj" where
  "count_method entry methods =
     (case brew_method entry of
        None \<Rightarrow> methods
      | Some m \<Rightarrow>
          if m = [] then methods
          else let methods1 = (if \<not> truthy (getProp methods m) then setProp methods m (Num 0)
                               else methods)
               in setProp methods1 m (increment (getProp methods1 m)))"

definition brewMethodData :: "CoffeeEntry list \<Rightarrow> chart_data" where
  "brewMethodData entries =
     (let methods = fold count_method entries [];
          sortedMethods =
            take 5 (sort_cmp (\<lambda>a b. js_minus (snd b) (snd a)) (Object_entries methods))
      in \<lparr>labels = map fst sortedMethods, data = map snd sortedMethods\<rparr>)"

text \<open>
  What the component returns, and the data functions it has called on the way: the
  notice is returned before any of them is called, the grid calls each of them while it is
  built (\<^verbatim>\<open>brewMethodData\<close> once for the test of its labels and once more for the chart).
\<close>

datatype element = Notice | Grid "chart_data list"

datatype call = Call_ratingData | Call_roastLevelData | Call_monthlyData
  | Call_tasteProfileData | Call_brewMethodData

record rendering =
  element :: element
  calls :: "call list"

definition CoffeeTrends :: "Date \<Rightarrow> CoffeeEntry list \<Rightarrow> rendering" where
  "CoffeeTrends now entries =
     (if length entries < 3 then \<lparr>element = Notice, calls = []\<rparr>
      else if labels (brewMethodData entries) \<noteq> []
      then \<lparr>element = Grid [ratingData entries, roastLevelData entries,
                monthlyData now entries, tasteProfileData entries, brewMethodData entries],
             calls = [Call_ratingData, Call_roastLevelData, Call_monthlyData,
                      Call_tasteProfileData, Call_brewMethodData, Call_brewMethodData]\<rparr>
      else \<lparr>element = Grid [ratingData entries, roastLevelData entries,
                monthlyData now entries, tasteProfileData entries],
             calls = [Call_ratingData, Call_roastLevelData, Call_monthlyData,
                      Call_tasteProfileData, Call_brewMethodData]\<rparr>)"

subsection \<open>Dashboard: getStats\<close>

definition NASHI :: jsstring where "NASHI = [0x306A, 0x3057]"

text \<open>
  One iteration of each counting loop:
  \<^verbatim>\<open>if (entry.f) counts[entry.f] = (counts[entry.f] || 0) + 1\<close>.
\<close>

definition count_field :: "jsstring option \<Rightarrow> obj \<Rightarrow> obj" where
  "count_field f counts =
     (case f of
        None \<Rightarrow> counts
      | Some k \<Rightarrow>
          if k = [] then counts
          else setProp counts k (plus_one (or_else (getProp counts k) (Num 0))))"

text \<open>
  \<^verbatim>\<open>Object.entries(counts).sort((a, b) => b[1] - a[1]).shift()\<close>, and the name shown for
  it: \<^verbatim>\<open>top ? top[0] : "..."\<close> with the fallback \<open>NASHI\<close>.
\<close>

definition top_entry :: "obj \<Rightarrow> (jsstring \<times> jsval) option" where
  "top_entry counts = shift (sort_cmp (\<lambda>a b. js_minus (snd b) (snd a)) (Object_entries counts))"

definition top_name :: "(jsstring \<times> jsval) option \<Rightarrow> jsstring" where
  "top_name t = (case t of Some kv \<Rightarrow> fst kv | None \<Rightarrow> NASHI)"

record stats =
  totalEntries :: nat
  avgRating :: jsstring
  topMethod :: jsstring
  topOrigin :: jsstring
  thisMonth :: nat

definition getStats :: "Date \<Rightarrow> CoffeeEntry list \<Rightarrow> stats" where
  "getStats now entries =
     (let totalEntries = length entries;
          avgRating = js_divide (fold (\<lambda>entry sum. sum + rating entry) entries 0)
                        (or_int (int totalEntries) 1);
          methodCounts = fold (\<lambda>entry. count_field (brew_method entry)) entries [];
          topMethod = top_entry methodCounts;
          originCounts = fold (\<lambda>entry. count_field (bean_origin entry)) entries [];
          topOrigin = top_entry originCounts
      in \<lparr>totalEntries = totalEntries,
          avgRating = toFixed1 avgRating,
          topMethod = top_name topMethod,
          topOrigin = top_name topOrigin,
          thisMonth = length (filter (\<lambda>e. getMonth (created_at e) = getMonth now
                         \<and> getFullYear (created_at e) = getFullYear now) entries)\<rparr>)"

subsection \<open>Entries page: search, filter and sort\<close>

datatype sort_mode = ByDate | ByRating

record filters =
  searchTerm :: jsstring
  originFilter :: jsstring
  roastFilter :: jsstring
  brewMethodFilter :: jsstring
  ratingFilter :: int
  sortBy :: sort_mode

text \<open>
  \<^verbatim>\<open>toLowerCase\<close> is the host's Unicode lower-casing; the model takes it as the
  parameter \<open>toLowerCase\<close>. \<^verbatim>\<open>f?.toLowerCase().includes(term)\<close> is falsy for a
  \<^verbatim>\<open>null\<close> field.
\<close>

definition field_includes :: "(jsstring \<Rightarrow> jsstring) \<Rightarrow> jsstring option \<Rightarrow> jsstring \<Rightarrow> bool" where
  "field_includes toLowerCase f term =
     (case f of None \<Rightarrow> False | Some s \<Rightarrow> str_includes (toLowerCase s) term)"

definition filter_by_keyword ::
  "(jsstring \<Rightarrow> jsstring) \<Rightarrow> filters \<Rightarrow> CoffeeEntry list \<Rightarrow> CoffeeEntry list" where
  "filter_by_keyword toLowerCase p result =
     (if trim (searchTerm p) \<noteq> []
      then let term = toLowerCase (searchTerm p)
           in filter (\<lambda>entry. field_includes toLowerCase (bean_name entry) term
                \<or> field_includes toLowerCase (bean_origin entry) term) result
      else result)"

definition filter_by_origin :: "filters \<Rightarrow> CoffeeEntry list \<Rightarrow> CoffeeEntry list" where
  "filter_by_origin p result =
     (if originFilter p \<noteq> []
      then filter (\<lambda>entry. bean_origin entry = Some (originFilter p)) result else result)"

definition filter_by_roast :: "filters \<Rightarrow> CoffeeEntry list \<Rightarrow> CoffeeEntry list" where
  "filter_by_roast p result =
     (if roastFilter p \<noteq> []
      then filter (\<lambda>entry. roast_level entry = Some (roastFilter p)) result else result)"

definition filter_by_brew_method :: "filters \<Rightarrow> CoffeeEntry list \<Rightarrow> CoffeeEntry list" where
  "filter_by_brew_method p result =
     (if brewMethodFilter p \<noteq> []
      then filter (\<lambda>entry. brew_method entry = Some (brewMethodFilter p)) result else result)"

definition filter_by_rating :: "filters \<Rightarrow> CoffeeEntry list \<Rightarrow> CoffeeEntry list" where
  "filter_by_rating p result =
     (if 0 < ratingFilter p
      then filter (\<lambda>entry. ratingFilter p \<le> rating entry) result else result)"

definition by_rating :: "CoffeeEntry \<Rightarrow> CoffeeEntry \<Rightarrow> number" where
  "by_rating a b = Finite (of_int (rating b - rating a))"

definition by_date :: "CoffeeEntry \<Rightarrow> CoffeeEntry \<Rightarrow> number" where
  "by_date a b = Finite (of_int (getTime (created_at b) - getTime (created_at a)))"

definition sort_entries :: "filters \<Rightarrow> CoffeeEntry list \<Rightarrow> CoffeeEntry list" where
  "sort_entries p result =
     (case sortBy p of ByRating \<Rightarrow> sort_cmp by_rating result | ByDate \<Rightarrow> sort_cmp by_date result)"

text \<open>The filters of the effect, in the order of the source, before the sort.\<close>

definition apply_filters ::
  "(jsstring \<Rightarrow> jsstring) \<Rightarrow> filters \<Rightarrow> CoffeeEntry list \<Rightarrow> CoffeeEntry list" where
  "apply_filters toLowerCase p entries =
     filter_by_rating p (filter_by_brew_method p (filter_by_roast p
       (filter_by_origin p (filter_by_keyword toLowerCase p entries))))"

text \<open>The value that the effect passes to \<^verbatim>\<open>setFilteredEntries\<close>.\<close>

definition filteredEntries ::
  "(jsstring \<Rightarrow> jsstring) \<Rightarrow> filters \<Rightarrow> CoffeeEntry list \<Rightarrow> CoffeeEntry list" where
  "filteredEntries toLowerCase p entries = sort_entries p (apply_filters toLowerCase p entries)"

subsection \<open>Auth page: the error branch of handleAuth\<close>

datatype thrown = ErrorWithMessage jsstring | OtherError

definition MSG_EMAIL_NOT_CONFIRMED :: jsstring where
  "MSG_EMAIL_NOT_CONFIRMED =
     [0x30E1, 0x30FC, 0x30EB, 0x30A2, 0x30C9, 0x30EC, 0x30B9, 0x304C, 0x78BA, 0x8A8D, 0x3055,
      0x308C, 0x3066, 0x3044, 0x307E, 0x305B, 0x3093, 0x3002, 0x30E1, 0x30FC, 0x30EB, 0x3092,
      0x3054, 0x78BA, 0x8A8D, 0x304F, 0x3060, 0x3055, 0x3044, 0x3002]"

definition MSG_INVALID_CREDENTIALS :: jsstring where
  "MSG_INVALID_CREDENTIALS =
     [0x30E1, 0x30FC, 0x30EB, 0x30A2, 0x30C9, 0x30EC, 0x30B9, 0x307E, 0x305F, 0x306F, 0x30D1,
      0x30B9, 0x30EF, 0x30FC, 0x30C9, 0x304C, 0x6B63, 0x3057, 0x304F, 0x3042, 0x308A, 0x307E,
      0x305B, 0x3093, 0x3002]"

definition MSG_ALREADY_REGISTERED :: jsstring where
  "MSG_ALREADY_REGISTERED =
     [0x3053, 0x306E, 0x30E1, 0x30FC, 0x30EB, 0x30A2, 0x30C9, 0x30EC, 0x30B9, 0x306F, 0x65E2,
      0x306B, 0x767B, 0x9332, 0x3055, 0x308C, 0x3066, 0x3044, 0x307E, 0x3059, 0x3002]"

definition MSG_WEAK_PASSWORD :: jsstring where
  "MSG_WEAK_PASSWORD =
     [0x30D1, 0x30B9, 0x30EF, 0x30FC, 0x30C9, 0x306F, 0x38, 0x6587, 0x5B57, 0x4EE5, 0x4E0A,
      0x306B, 0x3057, 0x3066, 0x304F, 0x3060, 0x3055, 0x3044, 0x3002]"

definition MSG_FALLBACK_PREFIX :: jsstring where
  "MSG_FALLBACK_PREFIX =
     [0x30A8, 0x30E9, 0x30FC, 0x304C, 0x767A, 0x751F, 0x3057, 0x307E, 0x3057, 0x305F, 0x3A, 0x20]"

definition MSG_UNEXPECTED :: jsstring where
  "MSG_UNEXPECTED =
     [0x8A8D, 0x8A3C, 0x4E2D, 0x306B, 0x4E88, 0x671F, 0x305B, 0x306C, 0x30A8, 0x30E9, 0x30FC,
      0x304C, 0x767A, 0x751F, 0x3057, 0x307E, 0x3057, 0x305F, 0x3002]"

text \<open>The argument of \<^verbatim>\<open>setError\<close> in the \<^verbatim>\<open>catch\<close> block of \<^verbatim>\<open>handleAuth\<close>.\<close>

definition handleAuth_error :: "thrown \<Rightarrow> jsstring" where
  "handleAuth_error err =
     (case err of
        ErrorWithMessage errorMsg \<Rightarrow>
          if str_includes errorMsg (ascii ''Email not confirmed'') then MSG_EMAIL_NOT_CONFIRMED
          else if str_includes errorMsg (ascii ''Invalid login credentials'')
          then MSG_INVALID_CREDENTIALS
          else if str_includes errorMsg (ascii ''Email already registered'')
          then MSG_ALREADY_REGISTERED
          else if str_includes errorMsg (ascii ''Password should be at least'')
          then MSG_WEAK_PASSWORD
          else MSG_FALLBACK_PREFIX @ errorMsg
      | OtherError \<Rightarrow> MSG_UNEXPECTED)"

subsection \<open>The filters as the specification words them\<close>

text \<open>
  The five conditions of section 4.1, each a predicate on one entry: a keyword matches
  the bean name or the origin without regard to case, and an absent term matches all; an
  equality filter set to a non-empty value keeps the exact matches, and an empty one
  matches all; the rating filter keeps the ratings from the threshold on when the
  threshold is positive.
\<close>

definition keyword_matches :: "(jsstring \<Rightarrow> jsstring) \<Rightarrow> filters \<Rightarrow> CoffeeEntry \<Rightarrow> bool" where
  "keyword_matches toLowerCase p entry =
     (if trim (searchTerm p) = [] then True
      else field_includes toLowerCase (bean_name entry) (toLowerCase (searchTerm p))
         \<or> field_includes toLowerCase (bean_origin entry) (toLowerCase (searchTerm p)))"

definition origin_matches :: "filters \<Rightarrow> CoffeeEntry \<Rightarrow> bool" where
  "origin_matches p entry =
     (if originFilter p = [] then True else bean_origin entry = Some (originFilter p))"

definition roast_matches :: "filters \<Rightarrow> CoffeeEntry \<Rightarrow> bool" where
  "roast_matches p entry =
     (if roastFilter p = [] then True else roast_level entry = Some (roastFilter p))"

definition brew_method_matches :: "filters \<Rightarrow> CoffeeEntry \<Rightarrow> bool" where
  "brew_method_matches p entry =
     (if brewMethodFilter p = [] then True else brew_method entry = Some (brewMethodFilter p))"

definition rating_matches :: "filters \<Rightarrow> CoffeeEntry \<Rightarrow> bool" where
  "rating_matches p entry =
     (if 0 < ratingFilter p then ratingFilter p \<le> rating entry else True)"

definition matches_all :: "(jsstring \<Rightarrow> jsstring) \<Rightarrow> filters \<Rightarrow> CoffeeEntry \<Rightarrow> bool" where
  "matches_all toLowerCase p entry \<longleftrightarrow>
     keyword_matches toLowerCase p entry \<and> origin_matches p entry \<and> roast_matches p entry
     \<and> brew_method_matches p entry \<and> rating_matches p entry"

text \<open>The five filter statements of the effect, as a list that can be reordered.\<close>

definition filter_steps ::
  "(jsstring \<Rightarrow> jsstring) \<Rightarrow> filters \<Rightarrow> (CoffeeEntry list \<Rightarrow> CoffeeEntry list) list" where
  "filter_steps toLowerCase p =
     [filter_by_keyword toLowerCase p, filter_by_origin p, filter_by_roast p,
      filter_by_brew_method p, filter_by_rating p]"

text \<open>
  The window of the monthly histogram in the words of the specification: the last six
  calendar months ending at the current month, counted in months since year 0.
\<close>

definition month_number :: "Date \<Rightarrow> int" where
  "month_number d = getFullYear d * 12 + getMonth d"

definition in_window :: "Date \<Rightarrow> Date \<Rightarrow> bool" where
  "in_window now d \<longleftrightarrow> month_number now - 5 \<le> month_number d \<and> month_number d \<le> month_number now"

text \<open>
  The bucket of the roast-level histogram that the specification assigns to a roast
  level: the level itself when it is one of the five of \<^verbatim>\<open>ROAST_LEVELS\<close>, the
  bucket for other and unknown levels otherwise.
\<close>

definition ROAST_LEVELS :: "jsstring list" where
  "ROAST_LEVELS = [ROAST_LIGHT, ROAST_MEDIUM_LIGHT, ROAST_MEDIUM, ROAST_MEDIUM_DARK, ROAST_DARK]"

definition roast_bucket :: "jsstring option \<Rightarrow> jsstring" where
  "roast_bucket r = (case r of None \<Rightarrow> ROAST_OTHER
     | Some l \<Rightarrow> if l \<in> set ROAST_LEVELS then l else ROAST_OTHER)"

subsection \<open>Example data\<close>

text \<open>Lower-casing restricted to the letters A to Z, to run the examples.\<close>

definition ascii_toLowerCase :: "jsstring \<Rightarrow> jsstring" where
  "ascii_toLowerCase s = map (\<lambda>c. if 65 \<le> c \<and> c \<le> 90 then c + 32 else c) s"

text \<open>
  The three entries of the examples of section 8: ratings 5, 3, 5, created on the first
  of January, February and March 2024 (UTC), origins Ethiopia, Colombia, Ethiopia.
\<close>

definition entry1 :: CoffeeEntry where
  "entry1 = \<lparr>entry_id = ascii ''e1'', bean_name = Some (ascii ''Yirgacheffe''),
     bean_origin = Some (ascii ''Ethiopia''), roast_level = Some ROAST_LIGHT,
     brew_method = Some (ascii ''V60''), rating = 5, sourness = 4, sweetness = 3,
     bitterness = 2, richness = 3,
     created_at = \<lparr>getTime = 1704067200000, getFullYear = 2024, getMonth = 0\<rparr>\<rparr>"

definition entry2 :: CoffeeEntry where
  "entry2 = \<lparr>entry_id = ascii ''e2'', bean_name = Some (ascii ''Supremo''),
     bean_origin = Some (ascii ''Colombia''), roast_level = Some (ascii ''unknown''),
     brew_method = Some [], rating = 3, sourness = 2, sweetness = 3,
     bitterness = 4, richness = 4,
     created_at = \<lparr>getTime = 1706745600000, getFullYear = 2024, getMonth = 1\<rparr>\<rparr>"

definition entry3 :: CoffeeEntry where
  "entry3 = \<lparr>entry_id = ascii ''e3'', bean_name = Some (ascii ''Sidamo''),
     bean_origin = Some (ascii ''Ethiopia''), roast_level = None,
     brew_method = None, rating = 5, sourness = 5, sweetness = 4,
     bitterness = 1, richness = 2,
     created_at = \<lparr>getTime = 1709251200000, getFullYear = 2024, getMonth = 2\<rparr>\<rparr>"

definition no_filters :: filters where
  "no_filters = \<lparr>searchTerm = [], originFilter = [], roastFilter = [],
     brewMethodFilter = [], ratingFilter = 0, sortBy = ByDate\<rparr>"

text \<open>An entry created on 15 June 2023, a year before the clock of the examples.\<close>

definition entry_june_2023 :: CoffeeEntry where
  "entry_june_2023 = \<lparr>entry_id = ascii ''e0'', bean_name = Some (ascii ''Mandheling''),
     bean_origin = Some (ascii ''Indonesia''), roast_level = Some ROAST_DARK,
     brew_method = Some (ascii ''French press''), rating = 4, sourness = 1, sweetness = 2,
     bitterness = 5, richness = 5,
     created_at = \<lparr>getTime = 1686787200000, getFullYear = 2023, getMonth = 5\<rparr>\<rparr>"

text \<open>The first of June 2024, as the clock of the dashboard examples.\<close>

definition june_2024 :: Date where
  "june_2024 = \<lparr>getTime = 1717200000000, getFullYear = 2024, getMonth = 5\<rparr>"

section \<open>Properties\<close>

lemmas entry_defs = entry1_def entry2_def entry3_def

subsection \<open>The comparator sorts are the stable sorts by key\<close>

lemma insert_cmp_by_rating:
  "insert_cmp by_rating x ys = insort_key (\<lambda>e. - rating e) x ys"
  by (induction ys) (auto simp: by_rating_def)

lemma insert_cmp_by_date:
  "insert_cmp by_date x ys = insort_key (\<lambda>e. - getTime (created_at e)) x ys"
  by (induction ys) (auto simp: by_date_def)

lemma foldr_insert_cmp_by_rating:
  "foldr (insert_cmp by_rating) xs ys = foldr (insort_key (\<lambda>e. - rating e)) xs ys"
  by (induction xs) (simp_all add: insert_cmp_by_rating)

lemma foldr_insert_cmp_by_date:
  "foldr (insert_cmp by_date) xs ys = foldr (insort_key (\<lambda>e. - getTime (created_at e))) xs ys"
  by (induction xs) (simp_all add: insert_cmp_by_date)

lemma sort_cmp_by_rating: "sort_cmp by_rating xs = sort_key (\<lambda>e. - rating e) xs"
  by (simp add: sort_cmp_def sort_key_def foldr_insert_cmp_by_rating)


lemma sort_cmp_by_date: "sort_cmp by_date xs = sort_key (\<lambda>e. - getTime (created_at e)) xs"
  by (simp add: sort_cmp_def sort_key_def foldr_insert_cmp_by_date)

lemma mset_sort_entries: "mset (sort_entries p xs) = mset xs"
  by (cases "sortBy p") (simp_all add: sort_entries_def sort_cmp_by_rating sort_cmp_by_date)

lemma sorted_wrt_desc:
  "sorted_wrt (\<lambda>a b. f b \<le> f a) xs \<longleftrightarrow> sorted (map (\<lambda>e. - f e) xs)" for f :: "'a \<Rightarrow> int"
  by (induction xs) auto

subsection \<open>The filters compose conjunctively\<close>

lemma filter_by_keyword_eq: "filter_by_keyword lc p = filter (keyword_matches lc p)"
  by (auto simp: filter_by_keyword_def keyword_matches_def [abs_def] fun_eq_iff Let_def)

lemma filter_by_origin_eq: "filter_by_origin p = filter (origin_matches p)"
  by (auto simp: filter_by_origin_def origin_matches_def [abs_def] fun_eq_iff)

lemma filter_by_roast_eq: "filter_by_roast p = filter (roast_matches p)"
  by (auto simp: filter_by_roast_def roast_matches_def [abs_def] fun_eq_iff)

lemma filter_by_brew_method_eq: "filter_by_brew_method p = filter (brew_method_matches p)"
  by (auto simp: filter_by_brew_method_def brew_method_matches_def [abs_def] fun_eq_iff)

lemma filter_by_rating_eq: "filter_by_rating p = filter (rating_matches p)"
  by (auto simp: filter_by_rating_def rating_matches_def [abs_def] fun_eq_iff)

lemmas filter_step_eqs = filter_by_keyword_eq filter_by_origin_eq filter_by_roast_eq
  filter_by_brew_method_eq filter_by_rating_eq

lemma apply_filters_eq: "apply_filters lc p entries = filter (matches_all lc p) entries"
  by (auto simp: apply_filters_def filter_step_eqs matches_all_def intro: filter_cong)

lemma filters_commute: "filter P \<circ> filter Q = filter Q \<circ> filter P"
  by (auto simp: fun_eq_iff intro: filter_cong)

lemma fold_filter_steps:
  "fold (\<lambda>step result. step result) (filter_steps lc p) entries = apply_filters lc p entries"
  by (simp add: filter_steps_def apply_filters_def)

text \<open>
  Claim C3. The five filters compose conjunctively: run in any order (any list that is
  a permutation of the five filter statements), they leave exactly the entries that
  satisfy all five conditions of the specification, in the order of the base list; and so
  do the statements in the order of the source.
\<close>

theorem C3_filters_compose:
  assumes "mset steps = mset (filter_steps lc p)"
  shows "fold (\<lambda>step result. step result) steps entries = filter (matches_all lc p) entries
    \<and> apply_filters lc p entries = filter (matches_all lc p) entries"
proof -
  have comm: "(\<lambda>result. x result) \<circ> (\<lambda>result. y result) = (\<lambda>result. y result) \<circ> (\<lambda>result. x result)"
    if xy: "x \<in> set steps" "y \<in> set steps" for x y
  proof -
    have "set steps = set (filter_steps lc p)"
      using assms by (rule mset_eq_setD)
    then obtain P Q where "x = filter P" "y = filter Q"
      using xy by (auto simp: filter_steps_def filter_step_eqs)
    then show ?thesis
      using filters_commute [of P Q] by simp
  qed
  have "fold (\<lambda>step result. step result) steps = fold (\<lambda>step result. step result) (filter_steps lc p)"
    by (rule fold_multiset_equiv [OF comm assms])
  then have "fold (\<lambda>step result. step result) steps entries = filter (matches_all lc p) entries"
    by (simp add: fold_filter_steps apply_filters_eq)
  then show ?thesis
    by (simp add: apply_filters_eq)
qed

theorem C3_witness:
  "mset (rev (filter_steps ascii_toLowerCase (no_filters\<lparr>originFilter := ascii ''Ethiopia''\<rparr>)))
     = mset (filter_steps ascii_toLowerCase (no_filters\<lparr>originFilter := ascii ''Ethiopia''\<rparr>))
   \<and> fold (\<lambda>step result. step result)
        (rev (filter_steps ascii_toLowerCase (no_filters\<lparr>originFilter := ascii ''Ethiopia''\<rparr>)))
        [entry1, entry2, entry3] = [entry1, entry3]
   \<and> apply_filters ascii_toLowerCase (no_filters\<lparr>originFilter := ascii ''Ethiopia''\<rparr>)
        [entry1, entry2, entry3] = [entry1, entry3]"
proof -
  have perm: "mset (rev (filter_steps ascii_toLowerCase (no_filters\<lparr>originFilter := ascii ''Ethiopia''\<rparr>)))
     = mset (filter_steps ascii_toLowerCase (no_filters\<lparr>originFilter := ascii ''Ethiopia''\<rparr>))"
    by simp
  have val: "filter (matches_all ascii_toLowerCase (no_filters\<lparr>originFilter := ascii ''Ethiopia''\<rparr>))
      [entry1, entry2, entry3] = [entry1, entry3]"
    by (simp add: matches_all_def keyword_matches_def origin_matches_def roast_matches_def
        brew_method_matches_def rating_matches_def no_filters_def trim_def entry_defs ascii_def)
  show ?thesis
    using C3_filters_compose [OF perm, of "[entry1, entry2, entry3]"] perm val by simp
qed



subsection \<open>The entries list: subset, order and stability\<close>

lemma subseq_apply_filters: "subseq (apply_filters lc p entries) entries"
  by (simp add: apply_filters_eq)

lemma apply_filters_none:
  assumes "trim (searchTerm p) = []" "originFilter p = []" "roastFilter p = []"
    "brewMethodFilter p = []" "ratingFilter p = 0"
  shows "apply_filters lc p entries = entries"
  using assms
  by (simp add: apply_filters_def filter_by_keyword_def filter_by_origin_def filter_by_roast_def
      filter_by_brew_method_def filter_by_rating_def)

lemma sorted_sort_by_date:
  "sorted_wrt (\<lambda>a b. getTime (created_at b) \<le> getTime (created_at a)) (sort_cmp by_date xs)"
  by (simp add: sorted_wrt_desc sort_cmp_by_date)

lemma sort_by_date_id:
  "sorted_wrt (\<lambda>a b. getTime (created_at b) \<le> getTime (created_at a)) xs \<Longrightarrow> sort_cmp by_date xs = xs"
  by (simp add: sorted_wrt_desc sort_cmp_by_date sort_key_id_if_sorted)

text \<open>
  Claim C1, as amended. For every base list and every setting of the filters, the list
  that the effect produces is drawn from the base list (as a multiset, so no entry is
  duplicated either). With every filter absent (a search term that is empty after
  trimming, empty origin, roast and brew-method filters, threshold 0) it has exactly the
  entries of the base list, in either sort mode; when the sort mode is the default one,
  by date, it is in date-descending order, and it is the base list itself when that is
  date-descending already, as the query delivers it.
\<close>

theorem C1_filtered_subset:
  "mset (filteredEntries lc p entries) \<subseteq># mset entries
   \<and> set (filteredEntries lc p entries) \<subseteq> set entries
   \<and> (trim (searchTerm p) = [] \<and> originFilter p = [] \<and> roastFilter p = []
        \<and> brewMethodFilter p = [] \<and> ratingFilter p = 0 \<longrightarrow>
      mset (filteredEntries lc p entries) = mset entries
      \<and> (sortBy p = ByDate \<longrightarrow>
           sorted_wrt (\<lambda>a b. getTime (created_at b) \<le> getTime (created_at a))
             (filteredEntries lc p entries)
           \<and> (sorted_wrt (\<lambda>a b. getTime (created_at b) \<le> getTime (created_at a)) entries
                \<longrightarrow> filteredEntries lc p entries = entries)))"
proof -
  have sub: "mset (filteredEntries lc p entries) \<subseteq># mset entries"
    by (simp add: filteredEntries_def mset_sort_entries apply_filters_eq)
  then have "set (filteredEntries lc p entries) \<subseteq> set entries"
    using set_mset_mono by fastforce
  moreover have "mset (filteredEntries lc p entries) = mset entries"
    if "trim (searchTerm p) = []" "originFilter p = []" "roastFilter p = []"
      "brewMethodFilter p = []" "ratingFilter p = 0"
    using that by (simp add: filteredEntries_def mset_sort_entries apply_filters_none)
  moreover have "sorted_wrt (\<lambda>a b. getTime (created_at b) \<le> getTime (created_at a))
      (filteredEntries lc p entries)" if "sortBy p = ByDate"
    using that by (simp add: filteredEntries_def sort_entries_def sorted_sort_by_date)
  moreover have "filteredEntries lc p entries = entries"
    if "trim (searchTerm p) = []" "originFilter p = []" "roastFilter p = []"
      "brewMethodFilter p = []" "ratingFilter p = 0" "sortBy p = ByDate"
      "sorted_wrt (\<lambda>a b. getTime (created_at b) \<le> getTime (created_at a)) entries"
    using that
    by (simp add: filteredEntries_def sort_entries_def apply_filters_none sort_by_date_id)
  ultimately show ?thesis
    using sub by blast
qed

theorem C1_witness:
  "trim (searchTerm no_filters) = [] \<and> originFilter no_filters = [] \<and> roastFilter no_filters = []
   \<and> brewMethodFilter no_filters = [] \<and> ratingFilter no_filters = 0 \<and> sortBy no_filters = ByDate
   \<and> sorted_wrt (\<lambda>a b. getTime (created_at b) \<le> getTime (created_at a)) [entry3, entry2, entry1]
   \<and> filteredEntries ascii_toLowerCase no_filters [entry3, entry2, entry1] = [entry3, entry2, entry1]
   \<and> set (filteredEntries ascii_toLowerCase (no_filters\<lparr>ratingFilter := 4\<rparr>) [entry3, entry2, entry1])
        \<subseteq> {entry1, entry2, entry3}"
proof -
  have a: "trim (searchTerm no_filters) = [] \<and> originFilter no_filters = []
      \<and> roastFilter no_filters = [] \<and> brewMethodFilter no_filters = []
      \<and> ratingFilter no_filters = 0 \<and> sortBy no_filters = ByDate"
    by (simp add: no_filters_def trim_def)
  have b: "sorted_wrt (\<lambda>a b. getTime (created_at b) \<le> getTime (created_at a)) [entry3, entry2, entry1]"
    by (simp add: entry_defs)
  show ?thesis
    using a b C1_filtered_subset [of ascii_toLowerCase no_filters "[entry3, entry2, entry1]"]
      C1_filtered_subset [of ascii_toLowerCase "no_filters\<lparr>ratingFilter := 4\<rparr>" "[entry3, entry2, entry1]"]
    by auto
qed

text \<open>
  Claim C1 as stated, without the condition on the sort mode, does not hold: with no
  filter set and the sort mode "rating", the date-descending base list of the three
  example entries (March, February, January) comes out as March, January, February,
  which is not the base list and not date-descending.
\<close>

theorem C1_rating_sort_counterexample:
  "trim (searchTerm (no_filters\<lparr>sortBy := ByRating\<rparr>)) = []
   \<and> originFilter (no_filters\<lparr>sortBy := ByRating\<rparr>) = []
   \<and> roastFilter (no_filters\<lparr>sortBy := ByRating\<rparr>) = []
   \<and> brewMethodFilter (no_filters\<lparr>sortBy := ByRating\<rparr>) = []
   \<and> ratingFilter (no_filters\<lparr>sortBy := ByRating\<rparr>) = 0
   \<and> getTime (created_at entry1) < getTime (created_at entry2)
   \<and> getTime (created_at entry2) < getTime (created_at entry3)
   \<and> filteredEntries ascii_toLowerCase (no_filters\<lparr>sortBy := ByRating\<rparr>) [entry3, entry2, entry1]
       = [entry3, entry1, entry2]
   \<and> [entry3, entry1, entry2] \<noteq> [entry3, entry2, entry1]"
  by (simp add: filteredEntries_def sort_entries_def apply_filters_none no_filters_def trim_def
      sort_cmp_def by_rating_def entry_defs ascii_def)


text \<open>
  Claim C2. Under the sort mode "rating" the result is the filtered entries ordered by
  rating descending, and the sort is stable: for each rating, the entries of that rating
  appear in the result in the order they have in the filtered list, which is a
  subsequence of the base list. For the three example entries (ratings 5, 3, 5) the
  result is the first, the third, the second.
\<close>

theorem C2_rating_sort_stable:
  "(sortBy p = ByRating \<longrightarrow>
      sorted_wrt (\<lambda>a b. rating b \<le> rating a) (filteredEntries lc p entries)
      \<and> mset (filteredEntries lc p entries) = mset (apply_filters lc p entries)
      \<and> subseq (apply_filters lc p entries) entries
      \<and> (\<forall>k. filter (\<lambda>e. rating e = k) (filteredEntries lc p entries)
             = filter (\<lambda>e. rating e = k) (apply_filters lc p entries)))
   \<and> filteredEntries lc (no_filters\<lparr>sortBy := ByRating\<rparr>) [entry1, entry2, entry3]
       = [entry1, entry3, entry2]"
proof -
  have stable: "filter (\<lambda>e. rating e = k) (sort_cmp by_rating xs) = filter (\<lambda>e. rating e = k) xs"
    for k and xs :: "CoffeeEntry list"
    using sort_key_stable [of "\<lambda>e. - rating e" "- k" xs] by (simp add: sort_cmp_by_rating)
  have sorted: "sorted_wrt (\<lambda>a b. rating b \<le> rating a) (sort_cmp by_rating xs)"
    for xs :: "CoffeeEntry list"
    by (simp add: sorted_wrt_desc sort_cmp_by_rating)
  have ex: "filteredEntries lc (no_filters\<lparr>sortBy := ByRating\<rparr>) [entry1, entry2, entry3]
       = [entry1, entry3, entry2]"
    by (simp add: filteredEntries_def sort_entries_def apply_filters_none no_filters_def trim_def
        sort_cmp_def by_rating_def entry_defs)
  show ?thesis
    using stable sorted ex
    by (simp add: filteredEntries_def sort_entries_def sort_cmp_by_rating subseq_apply_filters)
qed

theorem C2_witness:
  "sortBy (no_filters\<lparr>sortBy := ByRating\<rparr>) = ByRating
   \<and> filter (\<lambda>e. rating e = 5)
        (filteredEntries ascii_toLowerCase (no_filters\<lparr>sortBy := ByRating\<rparr>) [entry1, entry2, entry3])
       = [entry1, entry3]
   \<and> sorted_wrt (\<lambda>a b. rating b \<le> rating a)
        (filteredEntries ascii_toLowerCase (no_filters\<lparr>sortBy := ByRating\<rparr>) [entry1, entry2, entry3])"
proof -
  have "apply_filters ascii_toLowerCase (no_filters\<lparr>sortBy := ByRating\<rparr>) [entry1, entry2, entry3]
      = [entry1, entry2, entry3]"
    by (simp add: apply_filters_none no_filters_def trim_def)
  then show ?thesis
    using C2_rating_sort_stable [of "no_filters\<lparr>sortBy := ByRating\<rparr>" ascii_toLowerCase
        "[entry1, entry2, entry3]"]
    by (simp add: entry_defs)
qed

subsection \<open>Dashboard averages and the threshold of the trends view\<close>

text \<open>
  Claim C6. On the empty list the average rating is the number 0, shown as "0.0", and
  the four taste averages are the number 0: the divisor is 1, not the length 0.
\<close>

theorem C6_empty_averages:
  "avgRating (getStats now []) = ascii ''0.0''
   \<and> data (tasteProfileData []) = [Num 0, Num 0, Num 0, Num 0]
   \<and> js_divide (fold (\<lambda>entry sum. sum + rating entry) [] 0) (or_int (int (length ([] :: CoffeeEntry list))) 1) = Finite 0"
  by (simp add: getStats_def tasteProfileData_def js_divide_def or_int_def fixed1_def
      digits.simps ascii_def Let_def)

text \<open>For every list the divisor is at least 1, so the averages are finite numbers.\<close>

lemma divisor_nonzero: "or_int (int (length entries)) 1 \<noteq> 0"
  by (simp add: or_int_def)

lemma tasteProfileData_finite:
  "\<exists>a b c d. data (tasteProfileData entries) = [Num a, Num b, Num c, Num d]"
  using divisor_nonzero [of entries] by (simp add: tasteProfileData_def js_divide_def Let_def)

text \<open>
  Claim C8. With fewer than three entries the trends component returns the notice and
  has called none of the data functions; with three or more it returns the grid, which
  starts with the rating, roast-level, monthly and taste charts, and has called every
  data function.
\<close>

theorem C8_trends_threshold:
  "(length entries < 3 \<longrightarrow> CoffeeTrends now entries = \<lparr>element = Notice, calls = []\<rparr>)
   \<and> (3 \<le> length entries \<longrightarrow>
        (\<exists>rest. element (CoffeeTrends now entries)
           = Grid ([ratingData entries, roastLevelData entries, monthlyData now entries,
                    tasteProfileData entries] @ rest))
        \<and> set (calls (CoffeeTrends now entries)) = UNIV)"
proof -
  have "UNIV = {Call_ratingData, Call_roastLevelData, Call_monthlyData, Call_tasteProfileData,
      Call_brewMethodData}"
    using call.exhaust by auto
  then show ?thesis
    by (auto simp: CoffeeTrends_def)
qed

theorem C8_witness:
  "length [entry1, entry2] < 3
   \<and> CoffeeTrends june_2024 [entry1, entry2] = \<lparr>element = Notice, calls = []\<rparr>
   \<and> 3 \<le> length [entry1, entry2, entry3]
   \<and> (\<exists>rest. element (CoffeeTrends june_2024 [entry1, entry2, entry3])
           = Grid ([ratingData [entry1, entry2, entry3], roastLevelData [entry1, entry2, entry3],
                    monthlyData june_2024 [entry1, entry2, entry3],
                    tasteProfileData [entry1, entry2, entry3]] @ rest))"
  using C8_trends_threshold [of "[entry1, entry2]" june_2024]
    C8_trends_threshold [of "[entry1, entry2, entry3]" june_2024]
  by simp


subsection \<open>The rating histogram\<close>

lemma count_rating_step:
  "count_rating x [Num a, Num b, Num c, Num d, Num e] =
     [Num (a + of_nat (length (filter (\<lambda>x. rating x = 1) [x]))),
      Num (b + of_nat (length (filter (\<lambda>x. rating x = 2) [x]))),
      Num (c + of_nat (length (filter (\<lambda>x. rating x = 3) [x]))),
      Num (d + of_nat (length (filter (\<lambda>x. rating x = 4) [x]))),
      Num (e + of_nat (length (filter (\<lambda>x. rating x = 5) [x])))]"
proof -
  consider "rating x = 1" | "rating x = 2" | "rating x = 3" | "rating x = 4" | "rating x = 5"
    | "rating x < 1 \<or> 5 < rating x"
    by linarith
  then show ?thesis
    by cases (auto simp: count_rating_def array_increment_def)
qed

lemma fold_count_rating:
  "fold count_rating es [Num a, Num b, Num c, Num d, Num e] =
     [Num (a + of_nat (length (filter (\<lambda>x. rating x = 1) es))),
      Num (b + of_nat (length (filter (\<lambda>x. rating x = 2) es))),
      Num (c + of_nat (length (filter (\<lambda>x. rating x = 3) es))),
      Num (d + of_nat (length (filter (\<lambda>x. rating x = 4) es))),
      Num (e + of_nat (length (filter (\<lambda>x. rating x = 5) es)))]"
proof (induction es arbitrary: a b c d e)
  case Nil
  then show ?case by simp
next
  case (Cons x es)
  have "fold count_rating (x # es) [Num a, Num b, Num c, Num d, Num e]
      = fold count_rating es (count_rating x [Num a, Num b, Num c, Num d, Num e])"
    by simp
  also have "\<dots> = [Num (a + of_nat (length (filter (\<lambda>x. rating x = 1) [x]))
          + of_nat (length (filter (\<lambda>x. rating x = 1) es))),
      Num (b + of_nat (length (filter (\<lambda>x. rating x = 2) [x]))
          + of_nat (length (filter (\<lambda>x. rating x = 2) es))),
      Num (c + of_nat (length (filter (\<lambda>x. rating x = 3) [x]))
          + of_nat (length (filter (\<lambda>x. rating x = 3) es))),
      Num (d + of_nat (length (filter (\<lambda>x. rating x = 4) [x]))
          + of_nat (length (filter (\<lambda>x. rating x = 4) es))),
      Num (e + of_nat (length (filter (\<lambda>x. rating x = 5) [x]))
          + of_nat (length (filter (\<lambda>x. rating x = 5) es)))]"
    unfolding count_rating_step by (rule Cons.IH)
  also have "\<dots> = [Num (a + of_nat (length (filter (\<lambda>x. rating x = 1) (x # es)))),
      Num (b + of_nat (length (filter (\<lambda>x. rating x = 2) (x # es)))),
      Num (c + of_nat (length (filter (\<lambda>x. rating x = 3) (x # es)))),
      Num (d + of_nat (length (filter (\<lambda>x. rating x = 4) (x # es)))),
      Num (e + of_nat (length (filter (\<lambda>x. rating x = 5) (x # es))))]"
    by simp
  finally show ?case .
qed

text \<open>
  Claim C7. The rating histogram has the five buckets of the ratings 1 to 5, and the
  count of each bucket is the number of entries with exactly that rating: an entry with a
  rating in the range is counted once, in its bucket, and an entry with any other rating
  is counted nowhere. The data stay five numbers, so no update ever falls outside the
  array (where it would append a \<^verbatim>\<open>NaN\<close>).
\<close>

theorem C7_rating_histogram:
  "labels (ratingData entries) = [[STAR, 0x31], [STAR, 0x32], [STAR, 0x33], [STAR, 0x34], [STAR, 0x35]]
   \<and> data (ratingData entries)
       = map (\<lambda>k. Num (of_nat (length (filter (\<lambda>entry. rating entry = k) entries)))) [1, 2, 3, 4, 5]"
  using fold_count_rating [of entries 0 0 0 0 0] by (simp add: ratingData_def)

lemma ratingData_example:
  "data (ratingData [entry1, entry2, entry3, entry1\<lparr>rating := 0\<rparr>, entry1\<lparr>rating := 6\<rparr>, entry1\<lparr>rating := -1\<rparr>])
     = [Num 0, Num 0, Num 1, Num 0, Num 2]"
  by (simp add: ratingData_def count_rating_def array_increment_def entry_defs)


subsection \<open>The messages for authentication errors\<close>

lemma str_includes_sublist: "str_includes s t \<longleftrightarrow> sublist t s"
  by (induction s) (auto simp: sublist_Cons_right)

lemmas auth_msg_defs = MSG_EMAIL_NOT_CONFIRMED_def MSG_INVALID_CREDENTIALS_def
  MSG_ALREADY_REGISTERED_def MSG_WEAK_PASSWORD_def MSG_FALLBACK_PREFIX_def MSG_UNEXPECTED_def

text \<open>
  Claim C9. The error branch maps every error text to one message, chosen by the first
  of the four substrings that the text contains (unconfirmed email, invalid
  credentials, duplicate registration, weak password, in this order), and to the
  fallback, which quotes the text, when it contains none. The five messages are pairwise
  different, and each of the four provider texts alone is mapped to its own message.
\<close>

theorem C9_auth_error_mapping:
  "(str_includes m (ascii ''Email not confirmed'') \<longrightarrow>
      handleAuth_error (ErrorWithMessage m) = MSG_EMAIL_NOT_CONFIRMED)
   \<and> (\<not> str_includes m (ascii ''Email not confirmed'')
        \<and> str_includes m (ascii ''Invalid login credentials'') \<longrightarrow>
      handleAuth_error (ErrorWithMessage m) = MSG_INVALID_CREDENTIALS)
   \<and> (\<not> str_includes m (ascii ''Email not confirmed'')
        \<and> \<not> str_includes m (ascii ''Invalid login credentials'')
        \<and> str_includes m (ascii ''Email already registered'') \<longrightarrow>
      handleAuth_error (ErrorWithMessage m) = MSG_ALREADY_REGISTERED)
   \<and> (\<not> str_includes m (ascii ''Email not confirmed'')
        \<and> \<not> str_includes m (ascii ''Invalid login credentials'')
        \<and> \<not> str_includes m (ascii ''Email already registered'')
        \<and> str_includes m (ascii ''Password should be at least'') \<longrightarrow>
      handleAuth_error (ErrorWithMessage m) = MSG_WEAK_PASSWORD)
   \<and> (\<not> str_includes m (ascii ''Email not confirmed'')
        \<and> \<not> str_includes m (ascii ''Invalid login credentials'')
        \<and> \<not> str_includes m (ascii ''Email already registered'')
        \<and> \<not> str_includes m (ascii ''Password should be at least'') \<longrightarrow>
      handleAuth_error (ErrorWithMessage m) = MSG_FALLBACK_PREFIX @ m)
   \<and> distinct [MSG_EMAIL_NOT_CONFIRMED, MSG_INVALID_CREDENTIALS, MSG_ALREADY_REGISTERED,
        MSG_WEAK_PASSWORD, MSG_FALLBACK_PREFIX @ m]
   \<and> handleAuth_error (ErrorWithMessage (ascii ''Email not confirmed'')) = MSG_EMAIL_NOT_CONFIRMED
   \<and> handleAuth_error (ErrorWithMessage (ascii ''Invalid login credentials''))
       = MSG_INVALID_CREDENTIALS
   \<and> handleAuth_error (ErrorWithMessage (ascii ''Email already registered''))
       = MSG_ALREADY_REGISTERED
   \<and> handleAuth_error (ErrorWithMessage (ascii ''Password should be at least''))
       = MSG_WEAK_PASSWORD"
proof -
  have d: "distinct [MSG_EMAIL_NOT_CONFIRMED, MSG_INVALID_CREDENTIALS, MSG_ALREADY_REGISTERED,
        MSG_WEAK_PASSWORD, MSG_FALLBACK_PREFIX @ m]"
    by (simp add: auth_msg_defs)
  have k1: "handleAuth_error (ErrorWithMessage (ascii ''Email not confirmed'')) = MSG_EMAIL_NOT_CONFIRMED"
    by (simp add: handleAuth_error_def ascii_def)
  have k2: "handleAuth_error (ErrorWithMessage (ascii ''Invalid login credentials''))
       = MSG_INVALID_CREDENTIALS"
    by (simp add: handleAuth_error_def ascii_def)
  have k3: "handleAuth_error (ErrorWithMessage (ascii ''Email already registered''))
       = MSG_ALREADY_REGISTERED"
    by (simp add: handleAuth_error_def ascii_def)
  have k4: "handleAuth_error (ErrorWithMessage (ascii ''Password should be at least''))
       = MSG_WEAK_PASSWORD"
    by (simp add: handleAuth_error_def ascii_def)
  show ?thesis
    using d k1 k2 k3 k4 by (simp add: handleAuth_error_def)
qed

theorem C9_witness:
  "str_includes (ascii ''AuthApiError: Email not confirmed'') (ascii ''Email not confirmed'')
   \<and> handleAuth_error (ErrorWithMessage (ascii ''AuthApiError: Email not confirmed''))
       = MSG_EMAIL_NOT_CONFIRMED
   \<and> \<not> str_includes (ascii ''Failed to fetch'') (ascii ''Email not confirmed'')
   \<and> \<not> str_includes (ascii ''Failed to fetch'') (ascii ''Invalid login credentials'')
   \<and> \<not> str_includes (ascii ''Failed to fetch'') (ascii ''Email already registered'')
   \<and> \<not> str_includes (ascii ''Failed to fetch'') (ascii ''Password should be at least'')
   \<and> handleAuth_error (ErrorWithMessage (ascii ''Failed to fetch''))
       = MSG_FALLBACK_PREFIX @ ascii ''Failed to fetch''"
proof -
  have a: "str_includes (ascii ''AuthApiError: Email not confirmed'') (ascii ''Email not confirmed'')"
    by (simp add: ascii_def)
  have b: "\<not> str_includes (ascii ''Failed to fetch'') (ascii ''Email not confirmed'')
   \<and> \<not> str_includes (ascii ''Failed to fetch'') (ascii ''Invalid login credentials'')
   \<and> \<not> str_includes (ascii ''Failed to fetch'') (ascii ''Email already registered'')
   \<and> \<not> str_includes (ascii ''Failed to fetch'') (ascii ''Password should be at least'')"
    by (simp add: ascii_def)
  show ?thesis
    using a b C9_auth_error_mapping [of "ascii ''AuthApiError: Email not confirmed''"]
      C9_auth_error_mapping [of "ascii ''Failed to fetch''"]
    by simp
qed


subsection \<open>The most frequent brew method and origin\<close>

lemma set_insert_cmp: "set (insert_cmp cmp x ys) = insert x (set ys)"
  by (induction ys) auto

lemma set_sort_cmp: "set (sort_cmp cmp xs) = set xs"
  by (induction xs) (simp_all add: sort_cmp_def set_insert_cmp)

lemma set_Object_keys: "set (Object_keys ob) = fst ` set ob"
  by (auto simp: Object_keys_def)

lemma keys_setProp: "fst ` set (setProp ob k v) \<subseteq> insert k (fst ` set ob)"
  by (auto simp: setProp_def dom_update)

lemma count_field_absent: "\<not> present f \<Longrightarrow> count_field f counts = counts"
  by (cases f) (simp_all add: count_field_def)

lemma count_field_keys:
  "[] \<notin> fst ` set counts \<Longrightarrow> [] \<notin> fst ` set (count_field f counts)"
proof (cases "present f")
  case True
  assume a: "[] \<notin> fst ` set counts"
  from True obtain k where k: "f = Some k" "k \<noteq> []"
    by (cases f) auto
  then show ?thesis
    using a keys_setProp [of counts k] by (auto simp: count_field_def)
next
  case False
  assume "[] \<notin> fst ` set counts"
  with False show ?thesis
    by (simp add: count_field_absent)
qed

lemma fold_count_field_keys:
  "[] \<notin> fst ` set counts \<Longrightarrow> [] \<notin> fst ` set (fold (\<lambda>entry. count_field (g entry)) entries counts)"
  by (induction entries arbitrary: counts) (simp_all add: count_field_keys)

lemma fold_count_field_present:
  "fold (\<lambda>entry. count_field (g entry)) (filter (\<lambda>e. present (g e)) entries) counts
     = fold (\<lambda>entry. count_field (g entry)) entries counts"
  by (induction entries arbitrary: counts) (simp_all add: count_field_absent)

lemma fold_count_field_absent:
  "\<forall>e \<in> set entries. \<not> present (g e) \<Longrightarrow>
     fold (\<lambda>entry. count_field (g entry)) entries counts = counts"
  by (induction entries arbitrary: counts) (simp_all add: count_field_absent)

lemma top_entry_empty: "top_name (top_entry []) = NASHI"
  by (simp add: top_entry_def top_name_def Object_entries_def Object_keys_def sort_cmp_def)

lemma top_entry_key: "top_entry counts = Some t \<Longrightarrow> fst t \<in> fst ` set counts"
proof -
  assume "top_entry counts = Some t"
  then have "t \<in> set (sort_cmp (\<lambda>a b. js_minus (snd b) (snd a)) (Object_entries counts))"
    by (cases "sort_cmp (\<lambda>a b. js_minus (snd b) (snd a)) (Object_entries counts)")
      (auto simp: top_entry_def)
  then have "t \<in> set (Object_entries counts)"
    by (simp add: set_sort_cmp)
  then have "fst t \<in> set (Object_keys counts)"
    by (auto simp: Object_entries_def)
  then show ?thesis
    by (simp add: set_Object_keys)
qed

lemma top_name_nonempty: "[] \<notin> fst ` set counts \<Longrightarrow> top_name (top_entry counts) \<noteq> []"
proof (cases "top_entry counts")
  case None
  then show ?thesis by (simp add: top_name_def NASHI_def)
next
  case (Some t)
  assume "[] \<notin> fst ` set counts"
  with top_entry_key [OF Some] have "fst t \<noteq> []"
    by metis
  with Some show ?thesis by (simp add: top_name_def)
qed

lemma topMethod_eq:
  "topMethod (getStats now entries)
     = top_name (top_entry (fold (\<lambda>entry. count_field (brew_method entry)) entries []))"
  by (simp add: getStats_def Let_def)

lemma topOrigin_eq:
  "topOrigin (getStats now entries)
     = top_name (top_entry (fold (\<lambda>entry. count_field (bean_origin entry)) entries []))"
  by (simp add: getStats_def Let_def)

text \<open>
  Claim C10. When no entry has a non-empty brew method (respectively origin), the most
  frequent brew method (respectively origin) of the dashboard is the fallback string
  \<open>NASHI\<close>. For every list, the reported value is never the empty string, and it is the
  value computed from the entries with a non-empty field alone: an entry with an empty
  or absent field contributes no group.
\<close>

theorem C10_top_fallback:
  "((\<forall>e \<in> set entries. \<not> present (brew_method e)) \<longrightarrow> topMethod (getStats now entries) = NASHI)
   \<and> ((\<forall>e \<in> set entries. \<not> present (bean_origin e)) \<longrightarrow> topOrigin (getStats now entries) = NASHI)
   \<and> topMethod (getStats now entries) \<noteq> []
   \<and> topOrigin (getStats now entries) \<noteq> []
   \<and> topMethod (getStats now entries)
       = topMethod (getStats now (filter (\<lambda>e. present (brew_method e)) entries))
   \<and> topOrigin (getStats now entries)
       = topOrigin (getStats now (filter (\<lambda>e. present (bean_origin e)) entries))"
proof -
  have "topMethod (getStats now entries) = NASHI" if "\<forall>e \<in> set entries. \<not> present (brew_method e)"
    using that by (simp add: topMethod_eq fold_count_field_absent top_entry_empty)
  moreover have "topOrigin (getStats now entries) = NASHI"
    if "\<forall>e \<in> set entries. \<not> present (bean_origin e)"
    using that by (simp add: topOrigin_eq fold_count_field_absent top_entry_empty)
  moreover have "topMethod (getStats now entries) \<noteq> []"
    by (simp add: topMethod_eq top_name_nonempty fold_count_field_keys)
  moreover have "topOrigin (getStats now entries) \<noteq> []"
    by (simp add: topOrigin_eq top_name_nonempty fold_count_field_keys)
  moreover have "topMethod (getStats now entries)
       = topMethod (getStats now (filter (\<lambda>e. present (brew_method e)) entries))"
    by (simp add: topMethod_eq fold_count_field_present)
  moreover have "topOrigin (getStats now entries)
       = topOrigin (getStats now (filter (\<lambda>e. present (bean_origin e)) entries))"
    by (simp add: topOrigin_eq fold_count_field_present)
  ultimately show ?thesis
    by blast
qed

theorem C10_witness:
  "list_all (\<lambda>e. \<not> present (brew_method e)) [entry2, entry3]
   \<and> topMethod (getStats june_2024 [entry2, entry3]) = NASHI
   \<and> list_all (\<lambda>e. \<not> present (bean_origin e))
        [entry3\<lparr>bean_origin := None\<rparr>, entry2\<lparr>bean_origin := Some []\<rparr>]
   \<and> topOrigin (getStats june_2024 [entry3\<lparr>bean_origin := None\<rparr>, entry2\<lparr>bean_origin := Some []\<rparr>])
       = NASHI"
proof -
  have a: "\<forall>e \<in> set [entry2, entry3]. \<not> present (brew_method e)"
    by (simp add: entry_defs)
  have b: "\<forall>e \<in> set [entry3\<lparr>bean_origin := None\<rparr>, entry2\<lparr>bean_origin := Some []\<rparr>].
         \<not> present (bean_origin e)"
    by simp
  show ?thesis
    using a b C10_top_fallback [of "[entry2, entry3]" june_2024]
      C10_top_fallback [of "[entry3\<lparr>bean_origin := None\<rparr>, entry2\<lparr>bean_origin := Some []\<rparr>]" june_2024]
    by simp
qed


subsection \<open>Abbreviations for evaluating the histograms\<close>

lemmas roast_defs = ROAST_LIGHT_def ROAST_MEDIUM_LIGHT_def ROAST_MEDIUM_def
  ROAST_MEDIUM_DARK_def ROAST_DARK_def ROAST_OTHER_def

lemmas object_defs = getProp_def setProp_def Object_keys_def Object_values_def
  array_index_def index_rank_def Object_prototype_keys_def

subsection \<open>Counting in an object with a fixed set of keys\<close>

lemma getProp_counts:
  "getProp (map (\<lambda>l. (l, Num (c l))) ks) k =
     (if k \<in> set ks then Num (c k)
      else if k \<in> set Object_prototype_keys then Inherited else Undefined)"
  by (simp add: getProp_def map_of_map_restrict restrict_map_def)

lemma update_counts:
  "distinct ks \<Longrightarrow> k \<in> set ks \<Longrightarrow>
     AList.update k (Num v) (map (\<lambda>l. (l, Num (c l))) ks) = map (\<lambda>l. (l, Num ((c(k := v)) l))) ks"
  by (induction ks) auto

lemma setProp_counts:
  "distinct ks \<Longrightarrow> k \<in> set ks \<Longrightarrow>
     setProp (map (\<lambda>l. (l, Num (c l))) ks) k (Num v) = map (\<lambda>l. (l, Num ((c(k := v)) l))) ks"
  by (simp add: setProp_def update_counts map_of_map_restrict)

lemma increment_counts:
  assumes "distinct ks" "k \<in> set ks"
  shows "setProp (map (\<lambda>l. (l, Num (c l))) ks) k (increment (getProp (map (\<lambda>l. (l, Num (c l))) ks) k))
     = map (\<lambda>l. (l, Num (c l + of_nat (length (filter (\<lambda>x. x = l) [k]))))) ks"
proof -
  have "map (\<lambda>l. (l, Num ((c(k := c k + 1)) l))) ks
      = map (\<lambda>l. (l, Num (c l + of_nat (length (filter (\<lambda>x. x = l) [k]))))) ks"
    by (rule map_cong) auto
  then show ?thesis
    using assms by (simp add: getProp_counts setProp_counts)
qed

lemma Object_keys_counts:
  "list_all (\<lambda>k. array_index k = None) ks \<Longrightarrow> Object_keys (map (\<lambda>l. (l, v l)) ks) = ks"
  by (simp add: Object_keys_def comp_def list_all_iff)

lemma Object_values_counts:
  "list_all (\<lambda>k. array_index k = None) ks \<Longrightarrow>
     Object_values (map (\<lambda>l. (l, Num (c l))) ks) = map (\<lambda>l. Num (c l)) ks"
  by (simp add: Object_values_def Object_keys_counts getProp_counts)

lemma sum_list_indicator:
  "distinct ks \<Longrightarrow> sum_list (map (\<lambda>l. length (filter (\<lambda>x. x = l) [k])) ks) = (if k \<in> set ks then 1 else 0)"
  by (induction ks) auto

lemma sum_list_buckets:
  "distinct ks \<Longrightarrow> \<forall>e \<in> set es. g e \<in> set ks \<Longrightarrow>
     sum_list (map (\<lambda>l. length (filter (\<lambda>e. g e = l) es)) ks) = length es"
proof (induction es)
  case Nil
  then show ?case by simp
next
  case (Cons e es)
  have "sum_list (map (\<lambda>l. length (filter (\<lambda>e. g e = l) (e # es))) ks)
      = sum_list (map (\<lambda>l. length (filter (\<lambda>x. x = l) [g e]) + length (filter (\<lambda>e. g e = l) es)) ks)"
    by (rule arg_cong [where f = sum_list], rule map_cong) auto
  also have "\<dots> = sum_list (map (\<lambda>l. length (filter (\<lambda>x. x = l) [g e])) ks)
      + sum_list (map (\<lambda>l. length (filter (\<lambda>e. g e = l) es)) ks)"
    by (simp add: sum_list_addf)
  also have "\<dots> = 1 + length es"
    using Cons sum_list_indicator [of ks "g e"] by simp
  finally show ?case by simp
qed


subsection \<open>The roast-level histogram away from inherited names\<close>

lemma roast_keys_distinct: "distinct (ROAST_LEVELS @ [ROAST_OTHER])"
  by (simp add: ROAST_LEVELS_def roast_defs)

lemma roast_keys_nonempty: "[] \<notin> set (ROAST_LEVELS @ [ROAST_OTHER])"
  by (simp add: ROAST_LEVELS_def roast_defs)

lemma roast_keys_no_index: "list_all (\<lambda>k. array_index k = None) (ROAST_LEVELS @ [ROAST_OTHER])"
  by (simp add: ROAST_LEVELS_def roast_defs array_index_def)

lemma roast_bucket_key: "roast_bucket r \<in> set (ROAST_LEVELS @ [ROAST_OTHER])"
  by (cases r) (simp_all add: roast_bucket_def)

lemma levels_init_counts:
  "levels_init = map (\<lambda>l. (l, Num ((\<lambda>_. 0) l))) (ROAST_LEVELS @ [ROAST_OTHER])"
  by (simp add: levels_init_def ROAST_LEVELS_def)

lemma roast_step_counts:
  assumes "roast_level e \<notin> Some ` set Object_prototype_keys"
  shows "roast_step e (map (\<lambda>l. (l, Num (c l))) (ROAST_LEVELS @ [ROAST_OTHER]))
     = map (\<lambda>l. (l, Num (c l + of_nat (length (filter (\<lambda>x. x = l) [roast_bucket (roast_level e)])))))
         (ROAST_LEVELS @ [ROAST_OTHER])"
proof -
  let ?ks = "ROAST_LEVELS @ [ROAST_OTHER]"
  let ?levels = "map (\<lambda>l. (l, Num (c l))) ?ks"
  have other: "ROAST_OTHER \<in> set ?ks"
    by simp
  have step: "roast_step e ?levels
      = setProp ?levels (roast_bucket (roast_level e))
          (increment (getProp ?levels (roast_bucket (roast_level e))))"
  proof (cases "roast_level e")
    case None
    then show ?thesis
      by (simp add: roast_step_def roast_bucket_def)
  next
    case (Some r)
    with assms have r: "r \<notin> set Object_prototype_keys"
      by auto
    show ?thesis
    proof (cases "r \<in> set ?ks")
      case True
      then have "r \<noteq> []"
        using roast_keys_nonempty by metis
      moreover have "roast_bucket (Some r) = r"
        using True by (auto simp: roast_bucket_def)
      moreover have "getProp ?levels r \<noteq> Undefined"
        using True by (simp only: getProp_counts if_True) simp
      ultimately show ?thesis
        using Some by (simp add: roast_step_def)
    next
      case False
      then have "getProp ?levels r = Undefined"
        using r by (simp only: getProp_counts if_False)
      moreover have "roast_bucket (Some r) = ROAST_OTHER"
        using False by (auto simp: roast_bucket_def)
      ultimately show ?thesis
        using Some by (simp add: roast_step_def)
    qed
  qed
  show ?thesis
    unfolding step
    by (rule increment_counts [OF roast_keys_distinct roast_bucket_key])
qed

lemma fold_roast_step_counts:
  assumes "\<forall>e \<in> set es. roast_level e \<notin> Some ` set Object_prototype_keys"
  shows "fold roast_step es (map (\<lambda>l. (l, Num (c l))) (ROAST_LEVELS @ [ROAST_OTHER]))
     = map (\<lambda>l. (l, Num (c l + of_nat (length (filter (\<lambda>e. roast_bucket (roast_level e) = l) es)))))
         (ROAST_LEVELS @ [ROAST_OTHER])"
  using assms
proof (induction es arbitrary: c)
  case Nil
  then show ?case by simp
next
  case (Cons e es)
  have e: "roast_level e \<notin> Some ` set Object_prototype_keys"
    and es: "\<forall>e \<in> set es. roast_level e \<notin> Some ` set Object_prototype_keys"
    using Cons.prems by simp_all
  have "fold roast_step (e # es) (map (\<lambda>l. (l, Num (c l))) (ROAST_LEVELS @ [ROAST_OTHER]))
      = fold roast_step es
          (roast_step e (map (\<lambda>l. (l, Num (c l))) (ROAST_LEVELS @ [ROAST_OTHER])))"
    by simp
  also have "\<dots> = fold roast_step es
      (map (\<lambda>l. (l, Num (c l + of_nat (length (filter (\<lambda>x. x = l) [roast_bucket (roast_level e)])))))
         (ROAST_LEVELS @ [ROAST_OTHER]))"
    by (simp only: roast_step_counts [OF e])
  also have "\<dots> = map (\<lambda>l. (l, Num (c l + of_nat (length (filter (\<lambda>x. x = l) [roast_bucket (roast_level e)]))
            + of_nat (length (filter (\<lambda>e. roast_bucket (roast_level e) = l) es)))))
          (ROAST_LEVELS @ [ROAST_OTHER])"
    by (rule Cons.IH [OF es])
  also have "\<dots> = map (\<lambda>l. (l, Num (c l
        + of_nat (length (filter (\<lambda>e. roast_bucket (roast_level e) = l) (e # es))))))
      (ROAST_LEVELS @ [ROAST_OTHER])"
    by (rule map_cong) auto
  finally show ?case .
qed

text \<open>
  For entries whose roast level is not the name of a member of \<^verbatim>\<open>Object.prototype\<close>,
  the histogram has the six buckets of the specification, each entry is counted in the
  bucket the specification gives it, and the counts sum to the number of entries.
\<close>

lemma roastLevelData_buckets:
  assumes "\<forall>e \<in> set entries. roast_level e \<notin> Some ` set Object_prototype_keys"
  shows "labels (roastLevelData entries) = ROAST_LEVELS @ [ROAST_OTHER]"
    and "data (roastLevelData entries)
       = map (\<lambda>l. Num (of_nat (length (filter (\<lambda>e. roast_bucket (roast_level e) = l) entries))))
           (ROAST_LEVELS @ [ROAST_OTHER])"
    and "sum_list (map (\<lambda>l. length (filter (\<lambda>e. roast_bucket (roast_level e) = l) entries))
           (ROAST_LEVELS @ [ROAST_OTHER])) = length entries"
proof -
  have levels: "fold roast_step entries levels_init
      = map (\<lambda>l. (l, Num (of_nat (length (filter (\<lambda>e. roast_bucket (roast_level e) = l) entries)))))
          (ROAST_LEVELS @ [ROAST_OTHER])"
    using fold_roast_step_counts [OF assms, of "\<lambda>_. 0"] by (simp only: levels_init_counts) simp
  show "labels (roastLevelData entries) = ROAST_LEVELS @ [ROAST_OTHER]"
    by (simp only: roastLevelData_def levels Let_def Object_keys_counts [OF roast_keys_no_index])
      simp
  show "data (roastLevelData entries)
       = map (\<lambda>l. Num (of_nat (length (filter (\<lambda>e. roast_bucket (roast_level e) = l) entries))))
           (ROAST_LEVELS @ [ROAST_OTHER])"
    by (simp only: roastLevelData_def levels Let_def Object_values_counts [OF roast_keys_no_index])
      simp
  show "sum_list (map (\<lambda>l. length (filter (\<lambda>e. roast_bucket (roast_level e) = l) entries))
           (ROAST_LEVELS @ [ROAST_OTHER])) = length entries"
    using roast_bucket_key by (intro sum_list_buckets [OF roast_keys_distinct]) blast
qed


text \<open>
  Claim C4, at the inputs where the code departs from it. The claim puts every roast
  level other than the five known ones into the bucket for other and unknown levels. The
  test \<^verbatim>\<open>levels[entry.roast_level] !== undefined\<close> also succeeds for the names that a
  plain object inherits. An entry with the roast level "constructor" is counted in none
  of the six buckets and adds a seventh label whose value is \<^verbatim>\<open>NaN\<close>; an entry with
  the roast level "__proto__" is counted nowhere, so the six counts sum to 0 for one
  entry.
\<close>

theorem C4_roast_histogram_inherited_name:
  "roastLevelData [entry1\<lparr>roast_level := Some (ascii ''constructor'')\<rparr>] =
     \<lparr>labels = [ROAST_LIGHT, ROAST_MEDIUM_LIGHT, ROAST_MEDIUM, ROAST_MEDIUM_DARK, ROAST_DARK,
                ROAST_OTHER, ascii ''constructor''],
      data = [Num 0, Num 0, Num 0, Num 0, Num 0, Num 0, NaN]\<rparr>
   \<and> roastLevelData [entry1\<lparr>roast_level := Some (ascii ''__proto__'')\<rparr>] =
     \<lparr>labels = [ROAST_LIGHT, ROAST_MEDIUM_LIGHT, ROAST_MEDIUM, ROAST_MEDIUM_DARK, ROAST_DARK,
                ROAST_OTHER],
      data = [Num 0, Num 0, Num 0, Num 0, Num 0, Num 0]\<rparr>
   \<and> roast_bucket (Some (ascii ''constructor'')) = ROAST_OTHER
   \<and> roast_bucket (Some (ascii ''__proto__'')) = ROAST_OTHER"
  by (simp add: roastLevelData_def roast_step_def levels_init_def object_defs roast_defs
      roast_bucket_def ROAST_LEVELS_def ascii_def)

text \<open>
  The example of the specification: the roast levels light, "unknown", the empty
  string and \<^verbatim>\<open>null\<close> give one entry in the first bucket and three in the last.
\<close>

lemma roastLevelData_example:
  "roastLevelData [entry1, entry2, entry3\<lparr>roast_level := Some []\<rparr>, entry3] =
     \<lparr>labels = [ROAST_LIGHT, ROAST_MEDIUM_LIGHT, ROAST_MEDIUM, ROAST_MEDIUM_DARK, ROAST_DARK,
                ROAST_OTHER],
      data = [Num 1, Num 0, Num 0, Num 0, Num 0, Num 3]\<rparr>"
  by (simp add: roastLevelData_def roast_step_def levels_init_def object_defs roast_defs
      entry_defs ascii_def)

subsection \<open>The monthly histogram counts by label\<close>

lemma month_label_no_index: "array_index (month_label m) = None"
  by (simp add: array_index_def month_label_def)

lemma month_label_not_inherited: "month_label m \<notin> set Object_prototype_keys"
proof
  assume "month_label m \<in> set Object_prototype_keys"
  then have "last (month_label m) \<in> last ` set Object_prototype_keys"
    by (rule imageI)
  then show False
    by (simp add: month_label_def Object_prototype_keys_def ascii_def)
qed

lemma months_init_counts:
  assumes "0 \<le> getMonth now" "getMonth now < 12"
  shows "months_init now = map (\<lambda>l. (l, Num ((\<lambda>_. 0) l))) (map (window_label now) [5, 4, 3, 2, 1, 0])
    \<and> distinct (map (window_label now) [5, 4, 3, 2, 1, 0])"
proof -
  consider "getMonth now = 0" | "getMonth now = 1" | "getMonth now = 2" | "getMonth now = 3"
    | "getMonth now = 4" | "getMonth now = 5" | "getMonth now = 6" | "getMonth now = 7"
    | "getMonth now = 8" | "getMonth now = 9" | "getMonth now = 10" | "getMonth now = 11"
    using assms by atomize_elim presburger
  then show ?thesis
    by cases
      (simp_all add: months_init_def window_label_def month_label_def digits.simps setProp_def
        ascii_def)
qed

lemma count_month_counts:
  assumes "distinct ks"
  shows "count_month e (map (\<lambda>l. (l, Num (c l))) ks)
     = map (\<lambda>l. (l, Num (c l
         + of_nat (length (filter (\<lambda>x. x = l) [month_label (getMonth (created_at e))]))))) ks"
proof (cases "month_label (getMonth (created_at e)) \<in> set ks")
  case True
  then have "getProp (map (\<lambda>l. (l, Num (c l))) ks) (month_label (getMonth (created_at e))) \<noteq> Undefined"
    by (simp only: getProp_counts if_True) simp
  then show ?thesis
    by (simp add: count_month_def Let_def increment_counts [OF assms True])
next
  case False
  then have "getProp (map (\<lambda>l. (l, Num (c l))) ks) (month_label (getMonth (created_at e))) = Undefined"
    by (simp only: getProp_counts month_label_not_inherited if_False)
  then have "count_month e (map (\<lambda>l. (l, Num (c l))) ks) = map (\<lambda>l. (l, Num (c l))) ks"
    by (simp add: count_month_def Let_def)
  also have "\<dots> = map (\<lambda>l. (l, Num (c l
         + of_nat (length (filter (\<lambda>x. x = l) [month_label (getMonth (created_at e))]))))) ks"
    using False by (intro map_cong) auto
  finally show ?thesis .
qed

lemma fold_count_month_counts:
  assumes "distinct ks"
  shows "fold count_month es (map (\<lambda>l. (l, Num (c l))) ks)
     = map (\<lambda>l. (l, Num (c l
         + of_nat (length (filter (\<lambda>e. month_label (getMonth (created_at e)) = l) es))))) ks"
proof (induction es arbitrary: c)
  case Nil
  then show ?case by simp
next
  case (Cons e es)
  have "fold count_month (e # es) (map (\<lambda>l. (l, Num (c l))) ks)
      = fold count_month es (count_month e (map (\<lambda>l. (l, Num (c l))) ks))"
    by simp
  also have "\<dots> = fold count_month es
      (map (\<lambda>l. (l, Num (c l
         + of_nat (length (filter (\<lambda>x. x = l) [month_label (getMonth (created_at e))]))))) ks)"
    by (simp only: count_month_counts [OF assms])
  also have "\<dots> = map (\<lambda>l. (l, Num (c l
         + of_nat (length (filter (\<lambda>x. x = l) [month_label (getMonth (created_at e))]))
         + of_nat (length (filter (\<lambda>e. month_label (getMonth (created_at e)) = l) es))))) ks"
    by (rule Cons.IH)
  also have "\<dots> = map (\<lambda>l. (l, Num (c l
         + of_nat (length (filter (\<lambda>e. month_label (getMonth (created_at e)) = l) (e # es)))))) ks"
    by (rule map_cong) auto
  finally show ?case .
qed

text \<open>
  For a clock whose month is in 0..11, the monthly histogram has the six labels of the
  months that end with the current one, in this order, and the count of a label is the
  number of entries whose month has that label, whatever their year.
\<close>

lemma monthlyData_buckets:
  assumes "0 \<le> getMonth now" "getMonth now < 12"
  shows "labels (monthlyData now entries) = map (window_label now) [5, 4, 3, 2, 1, 0]"
    and "data (monthlyData now entries)
       = map (\<lambda>l. Num (of_nat (length
             (filter (\<lambda>e. month_label (getMonth (created_at e)) = l) entries))))
           (map (window_label now) [5, 4, 3, 2, 1, 0])"
    and "distinct (labels (monthlyData now entries))"
    and "length (labels (monthlyData now entries)) = 6"
proof -
  let ?ks = "map (window_label now) [5, 4, 3, 2, 1, 0]"
  have init: "months_init now = map (\<lambda>l. (l, Num ((\<lambda>_. 0) l))) ?ks" and d: "distinct ?ks"
    using months_init_counts [OF assms] by blast+
  have no_index: "list_all (\<lambda>k. array_index k = None) ?ks"
    by (simp add: window_label_def month_label_no_index)
  have months: "fold count_month entries (months_init now)
      = map (\<lambda>l. (l, Num (of_nat (length
            (filter (\<lambda>e. month_label (getMonth (created_at e)) = l) entries))))) ?ks"
    using fold_count_month_counts [OF d, of entries "\<lambda>_. 0"] by (simp only: init) simp
  show l: "labels (monthlyData now entries) = ?ks"
    by (simp only: monthlyData_def months Let_def Object_keys_counts [OF no_index]) simp
  show "data (monthlyData now entries)
       = map (\<lambda>l. Num (of_nat (length
             (filter (\<lambda>e. month_label (getMonth (created_at e)) = l) entries)))) ?ks"
    by (simp only: monthlyData_def months Let_def Object_values_counts [OF no_index]) simp
  show "distinct (labels (monthlyData now entries))"
    using d by (simp only: l)
  show "length (labels (monthlyData now entries)) = 6"
    by (simp only: l) simp
qed

lemma window_label_in_window:
  assumes "in_window now d" "0 \<le> getMonth d" "getMonth d < 12"
  shows "month_label (getMonth d) \<in> set (map (window_label now) [5, 4, 3, 2, 1, 0])"
proof -
  define i where "i = month_number now - month_number d"
  have range: "0 \<le> i" "i \<le> 5"
    using assms(1) by (simp_all add: in_window_def i_def)
  have "(getMonth now - i) mod 12 = getMonth d"
    using assms(2,3) unfolding i_def month_number_def by presburger
  then have "window_label now i = month_label (getMonth d)"
    by (simp add: window_label_def)
  moreover have "i = 0 \<or> i = 1 \<or> i = 2 \<or> i = 3 \<or> i = 4 \<or> i = 5"
    using range by presburger
  ultimately show ?thesis
    by auto
qed

text \<open>
  Claim C5, as amended. For a clock whose month is in 0..11, the monthly histogram has
  exactly six buckets, labelled with the short names of the six calendar months that end
  with the current one, all different. The count of a bucket is the number of entries
  whose creation month has the label of the bucket, whatever their year: every entry
  created within the window of six months is counted, an entry whose month has none of
  the six labels is excluded, and an entry from outside the window is excluded only then.
\<close>

theorem C5_monthly_histogram_by_label:
  "0 \<le> getMonth now \<and> getMonth now < 12 \<longrightarrow>
     labels (monthlyData now entries) = map (window_label now) [5, 4, 3, 2, 1, 0]
     \<and> length (labels (monthlyData now entries)) = 6
     \<and> distinct (labels (monthlyData now entries))
     \<and> data (monthlyData now entries)
         = map (\<lambda>l. Num (of_nat (length
               (filter (\<lambda>e. month_label (getMonth (created_at e)) = l) entries))))
             (labels (monthlyData now entries))
     \<and> (\<forall>d. in_window now d \<and> 0 \<le> getMonth d \<and> getMonth d < 12 \<longrightarrow>
           month_label (getMonth d) \<in> set (labels (monthlyData now entries)))"
proof
  assume "0 \<le> getMonth now \<and> getMonth now < 12"
  then have now: "0 \<le> getMonth now" "getMonth now < 12"
    by simp_all
  note b = monthlyData_buckets [OF now, of entries]
  have "month_label (getMonth d) \<in> set (labels (monthlyData now entries))"
    if "in_window now d \<and> 0 \<le> getMonth d \<and> getMonth d < 12" for d
    using that window_label_in_window [of now d] unfolding b(1) by blast
  then show "labels (monthlyData now entries) = map (window_label now) [5, 4, 3, 2, 1, 0]
     \<and> length (labels (monthlyData now entries)) = 6
     \<and> distinct (labels (monthlyData now entries))
     \<and> data (monthlyData now entries)
         = map (\<lambda>l. Num (of_nat (length
               (filter (\<lambda>e. month_label (getMonth (created_at e)) = l) entries))))
             (labels (monthlyData now entries))
     \<and> (\<forall>d. in_window now d \<and> 0 \<le> getMonth d \<and> getMonth d < 12 \<longrightarrow>
           month_label (getMonth d) \<in> set (labels (monthlyData now entries)))"
    using b by (simp only: b(1)) blast
qed

theorem C5_witness:
  "0 \<le> getMonth june_2024 \<and> getMonth june_2024 < 12
   \<and> labels (monthlyData june_2024 [entry3, entry2, entry1, entry_june_2023])
       = [[0x31, 0x6708], [0x32, 0x6708], [0x33, 0x6708], [0x34, 0x6708], [0x35, 0x6708],
          [0x36, 0x6708]]
   \<and> data (monthlyData june_2024 [entry3, entry2, entry1, entry_june_2023])
       = [Num 1, Num 1, Num 1, Num 0, Num 0, Num 1]
   \<and> in_window june_2024 (created_at entry3)
   \<and> month_label (getMonth (created_at entry3))
       \<in> set (labels (monthlyData june_2024 [entry3, entry2, entry1, entry_june_2023]))"
proof -
  have now: "0 \<le> getMonth june_2024 \<and> getMonth june_2024 < 12"
    by (simp add: june_2024_def)
  have w: "in_window june_2024 (created_at entry3) \<and> 0 \<le> getMonth (created_at entry3)
      \<and> getMonth (created_at entry3) < 12"
    by (simp add: in_window_def month_number_def june_2024_def entry_defs)
  have l: "map (window_label june_2024) [5, 4, 3, 2, 1, 0]
      = [[0x31, 0x6708], [0x32, 0x6708], [0x33, 0x6708], [0x34, 0x6708], [0x35, 0x6708],
         [0x36, 0x6708]]"
    by (simp add: window_label_def month_label_def digits.simps june_2024_def)
  have m: "map (\<lambda>e. month_label (getMonth (created_at e))) [entry3, entry2, entry1, entry_june_2023]
      = [[0x33, 0x6708], [0x32, 0x6708], [0x31, 0x6708], [0x36, 0x6708]]"
    by (simp add: month_label_def digits.simps entry_defs entry_june_2023_def)
  from m have c: "map (\<lambda>l. Num (of_nat (length
        (filter (\<lambda>e. month_label (getMonth (created_at e)) = l)
           [entry3, entry2, entry1, entry_june_2023]))))
      [[0x31, 0x6708], [0x32, 0x6708], [0x33, 0x6708], [0x34, 0x6708], [0x35, 0x6708],
       [0x36, 0x6708]]
      = [Num 1, Num 1, Num 1, Num 0, Num 0, Num 1]"
    by simp
  note t = C5_monthly_histogram_by_label
    [of june_2024 "[entry3, entry2, entry1, entry_june_2023]", THEN mp, OF now]
  have L: "labels (monthlyData june_2024 [entry3, entry2, entry1, entry_june_2023])
       = [[0x31, 0x6708], [0x32, 0x6708], [0x33, 0x6708], [0x34, 0x6708], [0x35, 0x6708],
          [0x36, 0x6708]]"
    by (rule trans [OF t [THEN conjunct1] l])
  have D: "data (monthlyData june_2024 [entry3, entry2, entry1, entry_june_2023])
       = [Num 1, Num 1, Num 1, Num 0, Num 0, Num 1]"
    using t [THEN conjunct2, THEN conjunct2, THEN conjunct2, THEN conjunct1] c
    by (simp only: L)
  have M: "month_label (getMonth (created_at entry3))
       \<in> set (labels (monthlyData june_2024 [entry3, entry2, entry1, entry_june_2023]))"
    by (rule t [THEN conjunct2, THEN conjunct2, THEN conjunct2, THEN conjunct2, THEN spec,
          THEN mp, OF w])
  show ?thesis
    by (intro conjI, rule now [THEN conjunct1], rule now [THEN conjunct2], rule L, rule D,
        rule w [THEN conjunct1], rule M)
qed

text \<open>
  Claim C5 as stated, with every entry outside the window excluded, does not hold: with
  the clock in June 2024 the six labels are the months 1 to 6, and an entry created in
  June 2023, outside the window of six months, has the label of June and is counted in
  that bucket.
\<close>

theorem C5_monthly_histogram_other_year:
  "\<not> in_window june_2024 (created_at entry_june_2023)
   \<and> monthlyData june_2024 [entry_june_2023] =
     \<lparr>labels = [[0x31, 0x6708], [0x32, 0x6708], [0x33, 0x6708], [0x34, 0x6708], [0x35, 0x6708],
                [0x36, 0x6708]],
      data = [Num 0, Num 0, Num 0, Num 0, Num 0, Num 1]\<rparr>"
  by (simp add: in_window_def month_number_def monthlyData_def count_month_def months_init_def
      window_label_def month_label_def digits.simps object_defs june_2024_def
      entry_june_2023_def Let_def ascii_def)


end
